theory Spec2Isabelle
  imports Complex_Main "HOL-Library.Word"
begin

unbundle bit_operations_syntax

section \<open>Go's float64 arithmetic\<close>

text \<open>
  The pixel stages of \<^verbatim>\<open>jewelcase.go\<close> compute in \<^verbatim>\<open>float64\<close>.  A finite
  float64 is modelled by the real number it denotes, and every arithmetic operation
  rounds its exact result to the nearest number with a 53-bit significand, ties to even
  (IEEE 754 binary64, which is what Go prescribes).  The exponent is left unbounded: all
  operands of the program are pixel coordinates, channel values and 64-bit integers, so
  no operation comes near the overflow or underflow thresholds.  Infinities and NaN are
  not represented; the one place they could arise is the division by a zero width or
  height in \<^verbatim>\<open>scaleAndCrop\<close>, and results about that function assume
  positive dimensions.  Each operation is rounded on its own (no fused multiply-add), and
  the sign of zero is not tracked.
\<close>

text \<open>\<open>binade x\<close> is the exponent \<open>e\<close> with \<open>2^e \<le> x < 2^(e+1)\<close>, for positive \<open>x\<close>.\<close>

function binade :: "real \<Rightarrow> int" where
  "binade x = (if x \<le> 0 then 0
               else if x < 1 then binade (2 * x) - 1
               else if 2 \<le> x then binade (x / 2) + 1
               else 0)"
  by pat_completeness auto
termination
proof (relation "measure (\<lambda>x. nat \<lfloor>x\<rfloor> + 2 * nat \<lceil>1 / x\<rceil>)")
  show "wf (measure (\<lambda>x::real. nat \<lfloor>x\<rfloor> + 2 * nat \<lceil>1 / x\<rceil>))" by simp
next
  fix x :: real
  assume a: "\<not> x \<le> 0" "x < 1"
  have f0: "\<lfloor>x\<rfloor> = 0" using a by (simp add: floor_eq_iff)
  have f1: "\<lfloor>2 * x\<rfloor> \<le> 1" using a by (simp add: floor_le_iff)
  have f2: "\<lfloor>2 * x\<rfloor> \<ge> 0" using a by simp
  have "1 / x > 1" using a by simp
  then have c1: "\<lceil>1 / x\<rceil> \<ge> 2" by (simp add: le_ceiling_iff)
  have "1 / (2 * x) \<le> of_int (\<lceil>1 / x\<rceil> - 1)"
  proof -
    have "1 / x \<le> of_int \<lceil>1 / x\<rceil>" by (rule le_of_int_ceiling)
    then have "1 / (2 * x) \<le> of_int \<lceil>1 / x\<rceil> / 2" by simp
    also have "\<dots> \<le> of_int (\<lceil>1 / x\<rceil> - 1)" using c1 by simp
    finally show ?thesis .
  qed
  then have c2: "\<lceil>1 / (2 * x)\<rceil> \<le> \<lceil>1 / x\<rceil> - 1" by (simp only: ceiling_le_iff)
  have "0 < 1 / (2 * x)" using a by simp
  then have "- 1 < 1 / (2 * x)" by linarith
  then have c3: "\<lceil>1 / (2 * x)\<rceil> \<ge> 0" by (simp only: zero_le_ceiling)
  show "(2 * x, x) \<in> measure (\<lambda>x. nat \<lfloor>x\<rfloor> + 2 * nat \<lceil>1 / x\<rceil>)"
    unfolding in_measure using f0 f1 f2 c1 c2 c3 by linarith
next
  fix x :: real
  assume a: "\<not> x \<le> 0" "\<not> x < 1" "2 \<le> x"
  have "x / 2 \<le> x - 1" using a by simp
  then have "\<lfloor>x / 2\<rfloor> \<le> \<lfloor>x - 1\<rfloor>" by (rule floor_mono)
  then have f1: "\<lfloor>x / 2\<rfloor> \<le> \<lfloor>x\<rfloor> - 1" by simp
  have f2: "\<lfloor>x / 2\<rfloor> \<ge> 1" using a by (simp add: le_floor_iff)
  have c1: "\<lceil>1 / x\<rceil> = 1" using a by (simp add: ceiling_eq_iff)
  have c2: "\<lceil>1 / (x / 2)\<rceil> = 1" using a by (simp add: ceiling_eq_iff)
  show "(x / 2, x) \<in> measure (\<lambda>x. nat \<lfloor>x\<rfloor> + 2 * nat \<lceil>1 / x\<rceil>)"
    unfolding in_measure using f1 f2 c1 c2 by linarith
qed

declare binade.simps [simp del]

text \<open>Rounding to the nearest integer, ties to the even one.\<close>

definition rhe :: "real \<Rightarrow> int" where
  "rhe t = (let f = \<lfloor>t\<rfloor>; d = t - of_int f
            in if d < 1 / 2 then f
               else if 1 / 2 < d then f + 1
               else if even f then f else f + 1)"

text \<open>
  \<open>float64 x\<close> is the float64 nearest to the real \<open>x\<close>: the conversion Go applies to a
  constant, to an integer (\<^verbatim>\<open>float64(i)\<close>) and to the exact result of every
  operation.
\<close>

definition float64 :: "real \<Rightarrow> real" where
  "float64 x = (if x = 0 then 0
                else let u = 2 powi (binade \<bar>x\<bar> - 52) in u * of_int (rhe (x / u)))"

definition add64 :: "real \<Rightarrow> real \<Rightarrow> real" where
  "add64 x y = float64 (x + y)"

definition sub64 :: "real \<Rightarrow> real \<Rightarrow> real" where
  "sub64 x y = float64 (x - y)"

definition mul64 :: "real \<Rightarrow> real \<Rightarrow> real" where
  "mul64 x y = float64 (x * y)"

definition div64 :: "real \<Rightarrow> real \<Rightarrow> real" where
  "div64 x y = float64 (x / y)"

text \<open>\<^verbatim>\<open>math.Sqrt\<close> is correctly rounded.\<close>

definition math_Sqrt :: "real \<Rightarrow> real" where
  "math_Sqrt x = float64 (sqrt x)"

text \<open>
  \<^verbatim>\<open>int(f)\<close> discards the fraction (truncation towards zero).  \<^verbatim>\<open>uint8(f)\<close>
  does the same and keeps the low eight bits; the program only converts values between
  0 and 256, where no wrap-around happens.
\<close>

definition int_of_float64 :: "real \<Rightarrow> int" where
  "int_of_float64 f = (if 0 \<le> f then \<lfloor>f\<rfloor> else \<lceil>f\<rceil>)"

definition uint8_of_float64 :: "real \<Rightarrow> 8 word" where
  "uint8_of_float64 f = word_of_int (int_of_float64 f)"

definition float64_of_uint8 :: "8 word \<Rightarrow> real" where
  "float64_of_uint8 w = float64 (of_nat (unat w))"

subsection \<open>Properties of the rounding\<close>

lemma p2_plus1: "(2::real) powi (k + 1) = 2 * 2 powi k"
  by (simp add: power_int_add)

lemma p2_minus1: "(2::real) powi (k - 1) = 2 powi k / 2"
  by (simp add: power_int_diff)

lemma p2_mono: "k \<le> l \<Longrightarrow> (2::real) powi k \<le> 2 powi l"
  by (rule power_int_increasing) simp_all

lemma binade_bounds:
  "0 < x \<Longrightarrow> 2 powi binade x \<le> x \<and> x < 2 powi (binade x + 1)"
proof (induction x rule: binade.induct)
  case (1 x)
  show ?case
  proof (cases "x < 1")
    case True
    have b: "binade x = binade (2 * x) - 1"
      using True "1.prems" by (subst binade.simps) simp
    have ih: "2 powi binade (2 * x) \<le> 2 * x \<and> 2 * x < 2 powi (binade (2 * x) + 1)"
      using "1.IH"(1) True "1.prems" by simp
    show ?thesis
      using ih unfolding b by (simp add: p2_minus1 p2_plus1)
  next
    case False
    show ?thesis
    proof (cases "2 \<le> x")
      case True
      have b: "binade x = binade (x / 2) + 1"
        using True False "1.prems" by (subst binade.simps) simp
      have ih: "2 powi binade (x / 2) \<le> x / 2 \<and> x / 2 < 2 powi (binade (x / 2) + 1)"
        using "1.IH"(2) True False "1.prems" by simp
      have "(2::real) powi (binade (x / 2) + 1 + 1) = 2 * 2 powi (binade (x / 2) + 1)"
        by (rule p2_plus1)
      moreover have "(2::real) powi (binade (x / 2) + 1) = 2 * 2 powi binade (x / 2)"
        by (rule p2_plus1)
      ultimately show ?thesis
        using ih unfolding b by linarith
    next
      case nt: False
      have b: "binade x = 0"
        using nt False "1.prems" by (subst binade.simps) simp
      show ?thesis using nt False unfolding b by simp
    qed
  qed
qed

lemma binade_mono:
  assumes "0 < x" "x \<le> y"
  shows "binade x \<le> binade y"
proof (rule ccontr)
  assume "\<not> binade x \<le> binade y"
  then have "binade y + 1 \<le> binade x" by simp
  then have "(2::real) powi (binade y + 1) \<le> 2 powi binade x" by (rule p2_mono)
  moreover have "2 powi binade x \<le> x" using binade_bounds [OF assms(1)] by simp
  moreover have "y < 2 powi (binade y + 1)" using binade_bounds [of y] assms by simp
  ultimately show False using assms by linarith
qed

lemma rhe_of_int: "rhe (of_int n) = n"
  by (simp add: rhe_def)

lemma rhe_lower: "\<lfloor>t\<rfloor> \<le> rhe t"
  by (simp add: rhe_def Let_def)

lemma rhe_mono:
  assumes "s \<le> t"
  shows "rhe s \<le> rhe t"
proof (cases "\<lfloor>s\<rfloor> = \<lfloor>t\<rfloor>")
  case True
  then show ?thesis using assms by (auto simp: rhe_def Let_def)
next
  case False
  then have "\<lfloor>s\<rfloor> + 1 \<le> \<lfloor>t\<rfloor>" using floor_mono [OF assms] by simp
  moreover have "rhe s \<le> \<lfloor>s\<rfloor> + 1" by (simp add: rhe_def Let_def)
  ultimately show ?thesis using rhe_lower [of t] by linarith
qed

lemma rhe_minus: "rhe (- t) = - rhe t"
proof (cases "t = of_int \<lfloor>t\<rfloor>")
  case True
  then obtain n where "t = of_int n" ..
  then have "- t = of_int (- n)" by simp
  then show ?thesis using \<open>t = of_int n\<close> by (simp only: rhe_of_int)
next
  case False
  then have c: "\<lceil>t\<rceil> = \<lfloor>t\<rfloor> + 1" by (simp add: ceiling_altdef)
  have f: "\<lfloor>- t\<rfloor> = - \<lfloor>t\<rfloor> - 1" using c by (simp add: ceiling_def)
  show ?thesis
    unfolding rhe_def Let_def f by (auto simp: algebra_simps)
qed

lemma float64_zero: "float64 0 = 0"
  by (simp add: float64_def)

lemma float64_minus: "float64 (- x) = - float64 x"
  by (simp add: float64_def Let_def rhe_minus)

lemma float64_pos_bounds:
  assumes "0 < x"
  shows "2 powi binade x \<le> float64 x \<and> float64 x \<le> 2 powi (binade x + 1)"
proof -
  define e where "e = binade x"
  define u :: real where "u = 2 powi (e - 52)"
  have u: "0 < u" by (simp add: u_def)
  have bb: "2 powi e \<le> x" "x < 2 powi (e + 1)"
    using binade_bounds [OF assms] by (simp_all add: e_def)
  have lo: "2 powi e = u * of_int (2 ^ 52)"
    by (simp add: u_def power_int_diff)
  have hi: "2 powi (e + 1) = u * of_int (2 ^ 53)"
    by (simp add: u_def power_int_diff power_int_add)
  have "of_int (2 ^ 52) \<le> x / u"
    using bb(1) u unfolding lo by (simp add: pos_le_divide_eq mult.commute)
  then have "rhe (of_int (2 ^ 52)) \<le> rhe (x / u)" by (rule rhe_mono)
  then have l: "2 ^ 52 \<le> rhe (x / u)" by (simp only: rhe_of_int)
  have "x / u \<le> of_int (2 ^ 53)"
    using bb(2) u unfolding hi by (simp add: pos_divide_le_eq mult.commute)
  then have "rhe (x / u) \<le> rhe (of_int (2 ^ 53))" by (rule rhe_mono)
  then have h: "rhe (x / u) \<le> 2 ^ 53" by (simp only: rhe_of_int)
  have flx: "float64 x = u * of_int (rhe (x / u))"
    using assms by (simp add: float64_def Let_def u_def e_def)
  have "u * of_int (2 ^ 52) \<le> u * of_int (rhe (x / u))"
    using l u by (simp only: mult_le_cancel_left_pos of_int_le_iff)
  moreover have "u * of_int (rhe (x / u)) \<le> u * of_int (2 ^ 53)"
    using h u by (simp only: mult_le_cancel_left_pos of_int_le_iff)
  ultimately show ?thesis
    unfolding flx e_def [symmetric] lo hi by simp
qed

lemma float64_pos: "0 < x \<Longrightarrow> 0 < float64 x"
  using float64_pos_bounds [of x] zero_less_power_int [of "2::real" "binade x"] by linarith

lemma float64_mono_pos:
  assumes "0 < x" "x \<le> y"
  shows "float64 x \<le> float64 y"
proof (cases "binade x = binade y")
  case True
  define u :: real where "u = 2 powi (binade y - 52)"
  have u: "0 < u" by (simp add: u_def)
  have "x / u \<le> y / u" using assms u by (simp add: divide_right_mono)
  then have "rhe (x / u) \<le> rhe (y / u)" by (rule rhe_mono)
  then have "u * of_int (rhe (x / u)) \<le> u * of_int (rhe (y / u))"
    using u by (simp only: mult_le_cancel_left_pos of_int_le_iff)
  then show ?thesis
    using assms True by (simp add: float64_def Let_def u_def)
next
  case False
  then have "binade x + 1 \<le> binade y"
    using binade_mono [OF assms] by simp
  then have "(2::real) powi (binade x + 1) \<le> 2 powi binade y" by (rule p2_mono)
  moreover have "float64 x \<le> 2 powi (binade x + 1)"
    using float64_pos_bounds [OF assms(1)] by simp
  moreover have "2 powi binade y \<le> float64 y"
    using float64_pos_bounds [of y] assms by simp
  ultimately show ?thesis by linarith
qed

lemma float64_mono:
  assumes "x \<le> y"
  shows "float64 x \<le> float64 y"
proof -
  consider "0 < x" | "x = 0" "0 < y" | "x = 0" "y = 0" | "x < 0" "0 \<le> y" | "y < 0"
    using assms by linarith
  then show ?thesis
  proof cases
    case 1
    then show ?thesis using assms by (rule float64_mono_pos)
  next
    case 2
    then show ?thesis using float64_pos [of y] by (simp add: float64_zero)
  next
    case 3
    then show ?thesis by simp
  next
    case 4
    have "0 < float64 (- x)" using 4 by (simp add: float64_pos)
    then have "float64 x < 0" by (simp add: float64_minus)
    moreover have "0 \<le> float64 y"
      using 4 float64_pos [of y] by (cases "y = 0") (simp_all add: float64_zero)
    ultimately show ?thesis by linarith
  next
    case 5
    have "float64 (- y) \<le> float64 (- x)"
      using 5 assms by (intro float64_mono_pos) simp_all
    then show ?thesis by (simp add: float64_minus)
  qed
qed

text \<open>A float64 below 1 is at most \<open>1 - 2^-53\<close>.\<close>

lemma float64_below_one:
  assumes "float64 U = U" "0 \<le> U" "U < 1"
  shows "U \<le> 1 - 1 / 2 ^ 53"
proof (cases "U = 0")
  case True
  then show ?thesis by simp
next
  case False
  then have pos: "0 < U" using assms by simp
  define e where "e = binade U"
  have bb: "2 powi e \<le> U" "U < 2 powi (e + 1)"
    using binade_bounds [OF pos] by (simp_all add: e_def)
  have e: "e < 0"
  proof (rule ccontr)
    assume "\<not> e < 0"
    then have "(2::real) powi 0 \<le> 2 powi e" by (intro p2_mono) simp
    then show False using bb(1) assms(3) by simp
  qed
  show ?thesis
  proof (cases "e = - 1")
    case True
    define n where "n = rhe (U * 2 ^ 53)"
    have U: "U = of_int n / 2 ^ 53"
      using assms(1) pos True
      by (simp add: float64_def Let_def e_def [symmetric] n_def power_int_minus divide_simps)
    have "of_int n < (2::real) ^ 53" using assms(3) unfolding U by simp
    then have "of_int n < (of_int (2 ^ 53) :: real)" by simp
    then have "n < 2 ^ 53" by (simp only: of_int_less_iff)
    then have "n \<le> 2 ^ 53 - 1" by simp
    then have "(of_int n :: real) \<le> of_int (2 ^ 53 - 1)" by (simp only: of_int_le_iff)
    then show ?thesis unfolding U by (simp add: divide_simps)
  next
    case False
    then have "e + 1 \<le> - 1" using e by simp
    then have "(2::real) powi (e + 1) \<le> 2 powi (- 1)" by (rule p2_mono)
    then have "U < 1 / 2" using bb(2) by (simp add: power_int_minus)
    then show ?thesis by simp
  qed
qed

subsection \<open>Exactly representable numbers\<close>

lemma float64_of_int_exact:
  assumes "\<bar>n\<bar> < 2 ^ 53"
  shows "float64 (of_int n) = of_int n"
proof -
  have pos: "float64 (of_int m) = of_int m" if m: "0 < m" "m < 2 ^ 53" for m :: int
  proof -
    define e where "e = binade (of_int m)"
    have bb: "2 powi e \<le> (of_int m :: real)" "(of_int m :: real) < 2 powi (e + 1)"
      using binade_bounds [of "of_int m"] m by (simp_all add: e_def)
    have e: "e \<le> 52"
    proof (rule ccontr)
      assume "\<not> e \<le> 52"
      then have "(2::real) powi 53 \<le> 2 powi e" by (intro p2_mono) simp
      moreover have "(of_int m :: real) < of_int (2 ^ 53)" using m by (simp only: of_int_less_iff)
      ultimately show False using bb(1) by simp
    qed
    define k where "k = nat (52 - e)"
    have u: "(2::real) powi (e - 52) = 1 / 2 ^ k"
      using e by (simp add: k_def power_int_def algebra_simps field_simps)
    have "of_int m / (2 powi (e - 52)) = (of_int (m * 2 ^ k) :: real)"
      unfolding u by simp
    then have "rhe (of_int m / (2 powi (e - 52))) = m * 2 ^ k"
      by (simp only: rhe_of_int)
    then have r: "of_int (rhe (of_int m / (2 powi (e - 52)))) = (of_int m * 2 ^ k :: real)"
      by simp
    have "float64 (of_int m) = 2 powi (e - 52) * of_int (rhe (of_int m / 2 powi (e - 52)))"
      using m by (simp add: float64_def Let_def e_def)
    also have "\<dots> = (1 / 2 ^ k) * (of_int m * 2 ^ k)"
      by (simp only: r) (simp only: u)
    also have "\<dots> = of_int m" by simp
    finally show ?thesis .
  qed
  consider "n = 0" | "0 < n" | "n < 0" by linarith
  then show ?thesis
  proof cases
    case 1
    then show ?thesis by (simp add: float64_zero)
  next
    case 2
    then show ?thesis using pos [of n] assms by simp
  next
    case 3
    then have "float64 (of_int (- n)) = of_int (- n)" using pos [of "- n"] assms by simp
    then show ?thesis by (simp add: float64_minus)
  qed
qed

lemma float64_of_uint8_exact: "float64_of_uint8 w = of_nat (unat w)"
proof -
  have "uint w < 2 ^ 8" using uint_lt2p [of w] by simp
  moreover have "0 \<le> uint w" by simp
  ultimately have "\<bar>uint w\<bar> < 2 ^ 53" by simp
  then have "float64 (of_int (uint w)) = of_int (uint w)"
    by (rule float64_of_int_exact)
  moreover have "(of_nat (unat w) :: real) = of_int (uint w)" by simp
  ultimately show ?thesis by (simp only: float64_of_uint8_def)
qed

lemma min_float64: "min (float64 a) (float64 b) = float64 (min a b)"
proof (cases "a \<le> b")
  case True
  then show ?thesis using float64_mono [of a b] by (simp add: min_def)
next
  case False
  then have "b \<le> a" by simp
  then show ?thesis using float64_mono [of b a] False by (auto simp: min_def)
qed

lemma uint8_of_float64_clamped:
  assumes "0 \<le> f" "f \<le> 255"
  shows "uint (uint8_of_float64 f) = \<lfloor>f\<rfloor>"
proof -
  have "0 \<le> \<lfloor>f\<rfloor>" "\<lfloor>f\<rfloor> < 256"
    using assms by (simp_all add: floor_less_iff)
  then have "\<lfloor>f\<rfloor> mod 2 ^ 8 = \<lfloor>f\<rfloor>" by simp
  then show ?thesis
    using assms(1) by (simp add: uint8_of_float64_def int_of_float64_def uint_word_of_int)
qed

lemma min4_float64:
  "min (min (float64 (of_int a)) (float64 (of_int b)))
       (min (float64 (of_int c)) (float64 (of_int e))) =
   float64 (of_int (min (min a b) (min c e)))"
  by (simp only: min_float64 of_int_min [symmetric])

lemma uint8_of_float64_of_uint8: "uint8_of_float64 (float64_of_uint8 w) = w"
proof -
  have "int_of_float64 (of_nat (unat w)) = int (unat w)"
    by (simp only: int_of_float64_def of_nat_0_le_iff if_True floor_of_nat)
  then have "uint8_of_float64 (of_nat (unat w)) = word_of_int (int (unat w))"
    by (simp only: uint8_of_float64_def)
  also have "\<dots> = w" by simp
  finally show ?thesis by (simp only: float64_of_uint8_exact)
qed

lemma float64_float64_of_uint8: "float64 (float64_of_uint8 w) = float64_of_uint8 w"
proof -
  have "float64 (float64_of_uint8 w) = float64 (of_nat (unat w))"
    by (simp only: float64_of_uint8_exact)
  also have "\<dots> = float64_of_uint8 w" by (simp only: float64_of_uint8_def)
  finally show ?thesis .
qed

lemma float64_2: "float64 2 = 2"
  using float64_of_int_exact [of 2] by simp

subsection \<open>Evaluation at a concrete number\<close>

lemmas float64_eval = float64_def binade.simps rhe_def Let_def

lemma float64_of_uint8_128: "float64_of_uint8 128 = 128"
  by (simp add: float64_of_uint8_def float64_eval)

section \<open>Colours\<close>

text \<open>
  The colours of the standard library's \<^verbatim>\<open>image/color\<close> that the program uses:
  \<^verbatim>\<open>color.RGBA\<close> (alpha-premultiplied, the pixel format of \<^verbatim>\<open>image.RGBA\<close>) and
  \<^verbatim>\<open>color.NRGBA\<close> (not premultiplied).  \<open>RGBA_RGBA\<close> and \<open>NRGBA_RGBA\<close> are their
  \<^verbatim>\<open>RGBA()\<close> methods, which return 16-bit channels in \<^verbatim>\<open>uint32\<close>, and
  \<open>rgbaModel\<close> is the conversion \<^verbatim>\<open>color.RGBAModel.Convert\<close> that
  \<^verbatim>\<open>(*image.RGBA).Set\<close> applies to the colour it stores.
\<close>

type_synonym uint8 = "8 word"
type_synonym uint32 = "32 word"

datatype RGBA = RGBA (R: uint8) (G: uint8) (B: uint8) (A: uint8)

datatype Color = Color_RGBA RGBA | Color_NRGBA uint8 uint8 uint8 uint8

definition RGBA_RGBA :: "RGBA \<Rightarrow> uint32 \<times> uint32 \<times> uint32 \<times> uint32" where
  "RGBA_RGBA c =
     (let r = ucast (R c); r = r OR push_bit 8 r;
          g = ucast (G c); g = g OR push_bit 8 g;
          b = ucast (B c); b = b OR push_bit 8 b;
          a = ucast (A c); a = a OR push_bit 8 a
      in (r, g, b, a))"

definition NRGBA_RGBA :: "uint8 \<Rightarrow> uint8 \<Rightarrow> uint8 \<Rightarrow> uint8 \<Rightarrow> uint32 \<times> uint32 \<times> uint32 \<times> uint32" where
  "NRGBA_RGBA cr cg cb ca =
     (let r = ucast cr; r = r OR push_bit 8 r; r = r * ucast ca; r = r div 0xff;
          g = ucast cg; g = g OR push_bit 8 g; g = g * ucast ca; g = g div 0xff;
          b = ucast cb; b = b OR push_bit 8 b; b = b * ucast ca; b = b div 0xff;
          a = ucast ca; a = a OR push_bit 8 a
      in (r, g, b, a))"

fun Color_RGBA16 :: "Color \<Rightarrow> uint32 \<times> uint32 \<times> uint32 \<times> uint32" where
  "Color_RGBA16 (Color_RGBA c) = RGBA_RGBA c"
| "Color_RGBA16 (Color_NRGBA cr cg cb ca) = NRGBA_RGBA cr cg cb ca"

fun rgbaModel :: "Color \<Rightarrow> RGBA" where
  "rgbaModel (Color_RGBA c) = c"
| "rgbaModel c =
     (let (r, g, b, a) = Color_RGBA16 c
      in RGBA (ucast (drop_bit 8 r)) (ucast (drop_bit 8 g)) (ucast (drop_bit 8 b)) (ucast (drop_bit 8 a)))"

lemma hi_byte: "(ucast (drop_bit 8 ((ucast w :: uint32) OR push_bit 8 (ucast w))) :: uint8) = w"
  by (rule bit_word_eqI) (auto simp: bit_simps dest: bit_imp_le_length)

lemma hi_byte': "(ucast (drop_bit 8 (ucast w :: uint32) OR drop_bit 8 (push_bit 8 (ucast w))) :: uint8) = w"
  by (rule bit_word_eqI) (auto simp: bit_simps dest: bit_imp_le_length)

lemma rgbaModel_NRGBA_A: "A (rgbaModel (Color_NRGBA cr cg cb ca)) = ca"
  by (simp add: NRGBA_RGBA_def Let_def hi_byte')

lemma rgbaModel_transparent: "rgbaModel (Color_NRGBA 0 0 0 0) = RGBA 0 0 0 0"
  by (simp add: NRGBA_RGBA_def)

section \<open>Rectangles and images\<close>

text \<open>
  \<^verbatim>\<open>image.Rectangle\<close> with its two corner points written out, and the operations of
  the standard library on it.  An image is its bounds and the colour of each pixel: the
  byte array and the stride of \<^verbatim>\<open>image.RGBA\<close> are not modelled, a pixel is read and
  written through its coordinates as \<^verbatim>\<open>RGBAAt\<close>, \<^verbatim>\<open>At\<close> and \<^verbatim>\<open>Set\<close> do.  The
  same type stands for the \<^verbatim>\<open>image.Image\<close> values the program receives (the album
  art, the decoded frame), each pixel being the \<^verbatim>\<open>color.RGBA\<close> it converts to.
  Integers are unbounded and \<^verbatim>\<open>image.NewRGBA\<close> always succeeds: its panic on a
  rectangle whose byte count overflows \<^verbatim>\<open>int\<close>, and the exhaustion of memory, are
  outside the model.
\<close>

record Rectangle =
  Min_X :: int
  Min_Y :: int
  Max_X :: int
  Max_Y :: int

definition image_Rect :: "int \<Rightarrow> int \<Rightarrow> int \<Rightarrow> int \<Rightarrow> Rectangle" where
  "image_Rect x0 y0 x1 y1 =
     \<lparr>Min_X = (if x0 > x1 then x1 else x0), Min_Y = (if y0 > y1 then y1 else y0),
      Max_X = (if x0 > x1 then x0 else x1), Max_Y = (if y0 > y1 then y0 else y1)\<rparr>"

definition Dx :: "Rectangle \<Rightarrow> int" where
  "Dx r = Max_X r - Min_X r"

definition Dy :: "Rectangle \<Rightarrow> int" where
  "Dy r = Max_Y r - Min_Y r"

definition Empty :: "Rectangle \<Rightarrow> bool" where
  "Empty r = (Min_X r \<ge> Max_X r \<or> Min_Y r \<ge> Max_Y r)"

definition Point_In :: "int \<Rightarrow> int \<Rightarrow> Rectangle \<Rightarrow> bool" where
  "Point_In x y r = (Min_X r \<le> x \<and> x < Max_X r \<and> Min_Y r \<le> y \<and> y < Max_Y r)"

definition Rectangle_Add :: "Rectangle \<Rightarrow> int \<times> int \<Rightarrow> Rectangle" where
  "Rectangle_Add r p =
     \<lparr>Min_X = Min_X r + fst p, Min_Y = Min_Y r + snd p,
      Max_X = Max_X r + fst p, Max_Y = Max_Y r + snd p\<rparr>"

definition Intersect :: "Rectangle \<Rightarrow> Rectangle \<Rightarrow> Rectangle" where
  "Intersect r s =
     (let r1 = \<lparr>Min_X = (if Min_X r < Min_X s then Min_X s else Min_X r),
                 Min_Y = (if Min_Y r < Min_Y s then Min_Y s else Min_Y r),
                 Max_X = (if Max_X r > Max_X s then Max_X s else Max_X r),
                 Max_Y = (if Max_Y r > Max_Y s then Max_Y s else Max_Y r)\<rparr>
      in if Empty r1 then \<lparr>Min_X = 0, Min_Y = 0, Max_X = 0, Max_Y = 0\<rparr> else r1)"

record image =
  Rect :: Rectangle
  Pix :: "int \<times> int \<Rightarrow> RGBA"

definition NewRGBA :: "Rectangle \<Rightarrow> image" where
  "NewRGBA r = \<lparr>Rect = r, Pix = (\<lambda>p. RGBA 0 0 0 0)\<rparr>"

definition RGBAAt :: "image \<Rightarrow> int \<Rightarrow> int \<Rightarrow> RGBA" where
  "RGBAAt p x y = (if \<not> Point_In x y (Rect p) then RGBA 0 0 0 0 else Pix p (x, y))"

definition At :: "image \<Rightarrow> int \<Rightarrow> int \<Rightarrow> Color" where
  "At p x y = Color_RGBA (RGBAAt p x y)"

definition RGBA_Set :: "image \<Rightarrow> int \<Rightarrow> int \<Rightarrow> Color \<Rightarrow> image" where
  "RGBA_Set p x y c =
     (if \<not> Point_In x y (Rect p) then p
      else p\<lparr>Pix := (Pix p)((x, y) := rgbaModel c)\<rparr>)"

text \<open>
  The loop \<^verbatim>\<open>for y := r.Min.Y; y < r.Max.Y; y++ { for x := r.Min.X; x < r.Max.X; x++ { body } }\<close>
  that every stage runs over its buffer.
\<close>

definition raster :: "Rectangle \<Rightarrow> (int \<Rightarrow> int \<Rightarrow> 'a \<Rightarrow> 'a) \<Rightarrow> 'a \<Rightarrow> 'a" where
  "raster r body s =
     fold (\<lambda>y. fold (\<lambda>x. body x y) [Min_X r..Max_X r - 1]) [Min_Y r..Max_Y r - 1] s"

lemma Rect_RGBA_Set: "Rect (RGBA_Set p x y c) = Rect p"
  by (simp add: RGBA_Set_def)

lemma Pix_RGBA_Set:
  "Pix (RGBA_Set p x y c) q =
     (if q = (x, y) \<and> Point_In x y (Rect p) then rgbaModel c else Pix p q)"
  by (simp add: RGBA_Set_def)

text \<open>
  A loop body paints with \<open>f\<close> when all it does at \<open>(x, y)\<close> is to store the colour
  \<open>f x y\<close>, or to leave the buffer alone when there is none.  The result of such a loop is
  known pixel by pixel.
\<close>

definition paints :: "(int \<Rightarrow> int \<Rightarrow> image \<Rightarrow> image) \<Rightarrow> (int \<Rightarrow> int \<Rightarrow> Color option) \<Rightarrow> bool" where
  "paints body f =
     (\<forall>x y res. body x y res = (case f x y of None \<Rightarrow> res | Some c \<Rightarrow> RGBA_Set res x y c))"

lemma paints_row:
  assumes "paints body f"
  shows "Rect (fold (\<lambda>x. body x y) xs img) = Rect img \<and>
         (\<forall>q. Pix (fold (\<lambda>x. body x y) xs img) q =
            (if snd q = y \<and> fst q \<in> set xs \<and> Point_In (fst q) y (Rect img)
             then (case f (fst q) y of None \<Rightarrow> Pix img q | Some c \<Rightarrow> rgbaModel c)
             else Pix img q))"
proof (induction xs arbitrary: img)
  case Nil
  show ?case by simp
next
  case (Cons a xs)
  have step: "body a y img = (case f a y of None \<Rightarrow> img | Some c \<Rightarrow> RGBA_Set img a y c)"
    using assms by (simp add: paints_def)
  have r: "Rect (body a y img) = Rect img"
    unfolding step by (simp add: Rect_RGBA_Set split: option.split)
  have p: "Pix (body a y img) q =
             (if q = (a, y) \<and> Point_In a y (Rect img)
              then (case f a y of None \<Rightarrow> Pix img q | Some c \<Rightarrow> rgbaModel c)
              else Pix img q)" for q
    unfolding step by (simp add: Pix_RGBA_Set split: option.split)
  show ?case
    using Cons.IH [of "body a y img"] unfolding fold_simps r
    by (auto simp: p split: option.split)
qed

lemma paints_rows:
  assumes "paints body f"
  shows "Rect (fold (\<lambda>y. fold (\<lambda>x. body x y) xs) ys img) = Rect img \<and>
         (\<forall>q. Pix (fold (\<lambda>y. fold (\<lambda>x. body x y) xs) ys img) q =
            (if snd q \<in> set ys \<and> fst q \<in> set xs \<and> Point_In (fst q) (snd q) (Rect img)
             then (case f (fst q) (snd q) of None \<Rightarrow> Pix img q | Some c \<Rightarrow> rgbaModel c)
             else Pix img q))"
proof (induction ys arbitrary: img)
  case Nil
  show ?case by simp
next
  case (Cons b ys)
  note row = paints_row [OF assms, of b xs img]
  show ?case
    using Cons.IH [of "fold (\<lambda>x. body x b) xs img"] row unfolding fold_simps
    by (auto split: option.split)
qed

lemma raster_Rect:
  assumes "paints body f"
  shows "Rect (raster r body img) = Rect img"
  using paints_rows [OF assms] by (simp add: raster_def)

lemma raster_Pix:
  assumes "paints body f"
  shows "Pix (raster r body img) (x, y) =
           (if Point_In x y r \<and> Point_In x y (Rect img)
            then (case f x y of None \<Rightarrow> Pix img (x, y) | Some c \<Rightarrow> rgbaModel c)
            else Pix img (x, y))"
proof -
  have m: "(y \<in> set [Min_Y r..Max_Y r - 1] \<and> x \<in> set [Min_X r..Max_X r - 1]) = Point_In x y r"
    by (auto simp: Point_In_def)
  have "Pix (raster r body img) (x, y) =
          (if y \<in> set [Min_Y r..Max_Y r - 1] \<and> x \<in> set [Min_X r..Max_X r - 1]
              \<and> Point_In x y (Rect img)
           then (case f x y of None \<Rightarrow> Pix img (x, y) | Some c \<Rightarrow> rgbaModel c)
           else Pix img (x, y))"
    using paints_rows [OF assms, of "[Min_X r..Max_X r - 1]" "[Min_Y r..Max_Y r - 1]" img]
    unfolding raster_def by simp
  then show ?thesis using m by auto
qed

subsection \<open>Stages that set every pixel of a fresh buffer\<close>

lemma paints_Set: "paints (\<lambda>x y res. RGBA_Set res x y (g x y)) (\<lambda>x y. Some (g x y))"
  by (simp add: paints_def)

lemma fresh_raster_Rect:
  "Rect (raster r (\<lambda>x y res. RGBA_Set res x y (g x y)) (NewRGBA r)) = r"
  by (simp add: raster_Rect [OF paints_Set] NewRGBA_def)

lemma fresh_raster_RGBAAt:
  "RGBAAt (raster r (\<lambda>x y res. RGBA_Set res x y (g x y)) (NewRGBA r)) x y =
     (if Point_In x y r then rgbaModel (g x y) else RGBA 0 0 0 0)"
  by (simp add: RGBAAt_def raster_Rect [OF paints_Set] raster_Pix [OF paints_Set] NewRGBA_def)

section \<open>The constants of the package\<close>

abbreviation targetWidth :: int where "targetWidth \<equiv> 750"
abbreviation targetHeight :: int where "targetHeight \<equiv> 750"
abbreviation frameOffsetX :: int where "frameOffsetX \<equiv> 98"
abbreviation frameOffsetY :: int where "frameOffsetY \<equiv> 13"

section \<open>The random source\<close>

text \<open>
  The state of \<^verbatim>\<open>math/rand\<close>'s global source is the sequence of numbers that the
  coming calls of \<^verbatim>\<open>rand.Float64()\<close> return; a call takes the first one.
\<close>

type_synonym rand_source = "nat \<Rightarrow> real"

definition rand_Float64 :: "rand_source \<Rightarrow> real \<times> rand_source" where
  "rand_Float64 s = (s 0, \<lambda>n. s (Suc n))"

section \<open>The parts of the program that are not in the repository\<close>

text \<open>
  \<^verbatim>\<open>Process\<close> depends on the decoded frame asset (\<^verbatim>\<open>frame.jpg\<close>, embedded at build
  time), on the bilinear scaler of \<^verbatim>\<open>golang.org/x/image/draw\<close> and on
  \<^verbatim>\<open>math.Cos\<close> and \<^verbatim>\<open>math.Sin\<close>.  They are parameters of the model.  The
  scaler is called as \<^verbatim>\<open>Scale(dst, dr, src, sr, Over, nil)\<close> and returns the
  destination it has drawn into.
\<close>

record externals =
  frame :: image
  BiLinear_Scale :: "image \<Rightarrow> Rectangle \<Rightarrow> image \<Rightarrow> Rectangle \<Rightarrow> image"
  math_Cos :: "real \<Rightarrow> real"
  math_Sin :: "real \<Rightarrow> real"

text \<open>\<^verbatim>\<open>math.Pi\<close> as a float64 constant: the float64 nearest to \<open>\<pi>\<close>.\<close>

definition math_Pi :: real where
  "math_Pi = 884279719003555 / 281474976710656"

section \<open>Concrete inputs for the examples\<close>

text \<open>
  An image of one colour, a random source that returns the same number at every call, a
  scaler that copies the pixels of its source, and a set of external parts: a grey frame
  of 884 by 777 pixels with the real cosine and sine.
\<close>

definition uniform_image :: "Rectangle \<Rightarrow> RGBA \<Rightarrow> image" where
  "uniform_image r c = \<lparr>Rect = r, Pix = (\<lambda>p. c)\<rparr>"

definition constant_source :: "real \<Rightarrow> rand_source" where
  "constant_source u = (\<lambda>n. u)"

definition copy_Scale :: "image \<Rightarrow> Rectangle \<Rightarrow> image \<Rightarrow> Rectangle \<Rightarrow> image" where
  "copy_Scale dst dr src sr = dst\<lparr>Pix := Pix src\<rparr>"

definition example_externals :: externals where
  "example_externals =
     \<lparr>frame = uniform_image (image_Rect 0 0 884 777) (RGBA 40 40 40 255),
      BiLinear_Scale = copy_Scale, math_Cos = cos, math_Sin = sin\<rparr>"

section \<open>Colour correction\<close>

text \<open>
  The body of the loop of \<^verbatim>\<open>applyColourCorrection\<close>, from the colour read with
  \<^verbatim>\<open>img.At(x, y)\<close> to the colour stored: less saturation, less contrast, a blue
  tint, each channel clamped to \<open>[0, 255]\<close> before it is cut to a byte.  The constant
  \<^verbatim>\<open>128*0.05\<close> is evaluated exactly and rounded once, as Go does for constant
  expressions.
\<close>

definition applyColourCorrection_pixel :: "Color \<Rightarrow> Color" where
  "applyColourCorrection_pixel c =
     (let (r, g, b, a) = Color_RGBA16 c;
          fr = float64_of_uint8 (ucast (drop_bit 8 r));
          fg = float64_of_uint8 (ucast (drop_bit 8 g));
          fb = float64_of_uint8 (ucast (drop_bit 8 b));
          avg = div64 (add64 (add64 fr fg) fb) 3;
          fr = add64 (mul64 fr (float64 0.9)) (mul64 avg (float64 0.1));
          fg = add64 (mul64 fg (float64 0.9)) (mul64 avg (float64 0.1));
          fb = add64 (mul64 fb (float64 0.9)) (mul64 avg (float64 0.1));
          fr = add64 (mul64 fr (float64 0.95)) (float64 (128 * 0.05));
          fg = add64 (mul64 fg (float64 0.95)) (float64 (128 * 0.05));
          fb = add64 (mul64 fb (float64 0.95)) (float64 (128 * 0.05));
          fb = min 255 (mul64 fb (float64 1.02))
      in Color_RGBA (RGBA (uint8_of_float64 (max 0 (min 255 fr)))
                          (uint8_of_float64 (max 0 (min 255 fg)))
                          (uint8_of_float64 (max 0 (min 255 fb)))
                          (ucast (drop_bit 8 a))))"

definition applyColourCorrection :: "image \<Rightarrow> image" where
  "applyColourCorrection img =
     (let bounds = Rect img;
          corrected = NewRGBA bounds
      in raster bounds
           (\<lambda>x y corrected. RGBA_Set corrected x y (applyColourCorrection_pixel (At img x y)))
           corrected)"

lemma applyColourCorrection_pixel_grey:
  "applyColourCorrection_pixel (Color_RGBA (RGBA 128 128 128 a)) =
     Color_RGBA (RGBA 128 128 130 a)"
  apply (simp add: applyColourCorrection_pixel_def RGBA_RGBA_def Let_def
      float64_of_uint8_128 hi_byte')
  apply (simp add: add64_def mul64_def div64_def uint8_of_float64_def int_of_float64_def
      float64_eval)
  done

lemma applyColourCorrection_pixel_alpha:
  "\<exists>r g b. applyColourCorrection_pixel (Color_RGBA c) = Color_RGBA (RGBA r g b (A c))"
  by (simp add: applyColourCorrection_pixel_def RGBA_RGBA_def Let_def hi_byte')

lemma applyColourCorrection_Rect: "Rect (applyColourCorrection img) = Rect img"
  by (simp add: applyColourCorrection_def Let_def fresh_raster_Rect)

lemma applyColourCorrection_RGBAAt:
  "RGBAAt (applyColourCorrection img) x y =
     (if Point_In x y (Rect img) then rgbaModel (applyColourCorrection_pixel (At img x y))
      else RGBA 0 0 0 0)"
  by (simp add: applyColourCorrection_def Let_def fresh_raster_RGBAAt)

text \<open>
  C3.  Colour correction: for every pixel inside the bounds of any image, the three colour
  channels of the result lie between 0 and 255, the alpha channel is the input's alpha
  unchanged, and a pixel with R = G = B = 128 becomes R = 128, G = 128, B = 130.  (A uniform
  mid-grey image is the case where every pixel satisfies the last hypothesis.)
\<close>

theorem applyColourCorrection_bounded_grey_alpha:
  assumes "Point_In x y (Rect img)"
  shows "unat (R (RGBAAt (applyColourCorrection img) x y)) \<le> 255 \<and>
         unat (G (RGBAAt (applyColourCorrection img) x y)) \<le> 255 \<and>
         unat (B (RGBAAt (applyColourCorrection img) x y)) \<le> 255 \<and>
         A (RGBAAt (applyColourCorrection img) x y) = A (RGBAAt img x y) \<and>
         (R (RGBAAt img x y) = 128 \<and> G (RGBAAt img x y) = 128 \<and> B (RGBAAt img x y) = 128
            \<longrightarrow> R (RGBAAt (applyColourCorrection img) x y) = 128 \<and>
                G (RGBAAt (applyColourCorrection img) x y) = 128 \<and>
                B (RGBAAt (applyColourCorrection img) x y) = 130)"
proof -
  define c where "c = RGBAAt img x y"
  have out: "RGBAAt (applyColourCorrection img) x y =
               rgbaModel (applyColourCorrection_pixel (Color_RGBA c))"
    using assms by (simp add: applyColourCorrection_RGBAAt At_def c_def)
  have bnd: "unat w \<le> 255" for w :: uint8
    using unsigned_less [of w, where 'a = nat] by simp
  obtain r g b where px: "applyColourCorrection_pixel (Color_RGBA c) = Color_RGBA (RGBA r g b (A c))"
    using applyColourCorrection_pixel_alpha by blast
  have alpha: "A (RGBAAt (applyColourCorrection img) x y) = A c"
    unfolding out px by simp
  have grey: "R (RGBAAt (applyColourCorrection img) x y) = 128 \<and>
              G (RGBAAt (applyColourCorrection img) x y) = 128 \<and>
              B (RGBAAt (applyColourCorrection img) x y) = 130"
    if "R c = 128" "G c = 128" "B c = 128"
  proof -
    have "c = RGBA 128 128 128 (A c)" using that by (cases c) simp
    then have "applyColourCorrection_pixel (Color_RGBA c) = Color_RGBA (RGBA 128 128 130 (A c))"
      using applyColourCorrection_pixel_grey [of "A c"] by simp
    then show ?thesis unfolding out by simp
  qed
  show ?thesis
    using bnd alpha grey unfolding c_def by blast
qed

theorem applyColourCorrection_bounded_grey_alpha_witness:
  "Point_In 1 0 (Rect (NewRGBA (image_Rect 0 0 2 1)\<lparr>Pix := (\<lambda>p. RGBA 128 128 128 200)\<rparr>)) \<and>
   RGBAAt (applyColourCorrection (NewRGBA (image_Rect 0 0 2 1)\<lparr>Pix := (\<lambda>p. RGBA 128 128 128 200)\<rparr>)) 1 0
     = RGBA 128 128 130 200"
proof -
  let ?img = "NewRGBA (image_Rect 0 0 2 1)\<lparr>Pix := (\<lambda>p. RGBA 128 128 128 200)\<rparr>"
  have h: "Point_In 1 0 (Rect ?img)"
    by (simp add: Point_In_def NewRGBA_def image_Rect_def)
  have i: "RGBAAt ?img 1 0 = RGBA 128 128 128 200"
    by (simp add: RGBAAt_def Point_In_def NewRGBA_def image_Rect_def)
  show ?thesis
    using h applyColourCorrection_bounded_grey_alpha [OF h] unfolding i
    by (cases "RGBAAt (applyColourCorrection ?img) 1 0") simp
qed

section \<open>Edge softening\<close>

text \<open>
  The body of the loop of \<^verbatim>\<open>applyEdgeSoftening\<close>.  The \<^verbatim>\<open>continue\<close> of the
  source is the branch that stores the softened colour; the other branches store the
  colour of the input.
\<close>

definition applyEdgeSoftening_body :: "image \<Rightarrow> Rectangle \<Rightarrow> int \<Rightarrow> int \<Rightarrow> image \<Rightarrow> image" where
  "applyEdgeSoftening_body img bounds x y result =
     (let distFromLeft = float64 (of_int (x - Min_X bounds));
          distFromRight = float64 (of_int (Max_X bounds - x - 1));
          distFromTop = float64 (of_int (y - Min_Y bounds));
          distFromBottom = float64 (of_int (Max_Y bounds - y - 1));
          minDist = min (min distFromLeft distFromRight) (min distFromTop distFromBottom)
      in if minDist < 2 then
           (let alpha = div64 minDist 2.0
            in if alpha < 1.0 then
                 (let (r, g, b, a) = Color_RGBA16 (At img x y);
                      newAlpha = uint8_of_float64 (mul64 255.0 alpha)
                  in RGBA_Set result x y
                       (Color_NRGBA (ucast (drop_bit 8 r)) (ucast (drop_bit 8 g))
                          (ucast (drop_bit 8 b)) newAlpha))
               else RGBA_Set result x y (At img x y))
         else RGBA_Set result x y (At img x y))"

definition applyEdgeSoftening :: "image \<Rightarrow> image" where
  "applyEdgeSoftening img =
     (let bounds = Rect img;
          result = NewRGBA bounds
      in raster bounds (applyEdgeSoftening_body img bounds) result)"

text \<open>The colour the loop body stores at \<open>(x, y)\<close>, for the proofs.\<close>

definition applyEdgeSoftening_colour :: "image \<Rightarrow> Rectangle \<Rightarrow> int \<Rightarrow> int \<Rightarrow> Color" where
  "applyEdgeSoftening_colour img bounds x y =
     (let d = float64 (of_int (min (min (x - Min_X bounds) (Max_X bounds - x - 1))
                                   (min (y - Min_Y bounds) (Max_Y bounds - y - 1))))
      in if d < 2 \<and> div64 d 2 < 1
         then Color_NRGBA (R (RGBAAt img x y)) (G (RGBAAt img x y)) (B (RGBAAt img x y))
                (uint8_of_float64 (mul64 255 (div64 d 2)))
         else At img x y)"

lemma applyEdgeSoftening_body_colour:
  "applyEdgeSoftening_body img bounds =
     (\<lambda>x y result. RGBA_Set result x y (applyEdgeSoftening_colour img bounds x y))"
  unfolding applyEdgeSoftening_body_def applyEdgeSoftening_colour_def Let_def min4_float64
  by (intro ext) (simp add: At_def RGBA_RGBA_def Let_def hi_byte')

lemma applyEdgeSoftening_Rect: "Rect (applyEdgeSoftening img) = Rect img"
  by (simp add: applyEdgeSoftening_def Let_def applyEdgeSoftening_body_colour fresh_raster_Rect)

lemma applyEdgeSoftening_RGBAAt:
  "RGBAAt (applyEdgeSoftening img) x y =
     (if Point_In x y (Rect img)
      then rgbaModel (applyEdgeSoftening_colour img (Rect img) x y)
      else RGBA 0 0 0 0)"
  by (simp add: applyEdgeSoftening_def Let_def applyEdgeSoftening_body_colour fresh_raster_RGBAAt)

lemma soft_alpha_0: "uint8_of_float64 (mul64 255 (div64 (float64 0) 2)) = 0"
  by (simp add: float64_zero div64_def mul64_def uint8_of_float64_def int_of_float64_def)

lemma soft_alpha_1: "uint8_of_float64 (mul64 255 (div64 (float64 1) 2)) = 127"
  by (simp add: div64_def mul64_def uint8_of_float64_def int_of_float64_def float64_eval)

lemma soft_lt_1: "div64 (float64 1) 2 < 1" "div64 (float64 0) 2 < 1"
  by (simp_all add: div64_def float64_eval)

text \<open>
  C7.  Edge softening, for a pixel \<open>(x, y)\<close> inside the bounds of any buffer, with \<open>d\<close> its
  least distance to the four edges: when \<open>d < 2\<close> the alpha of the result is
  \<open>255 * (d / 2)\<close> with the fraction dropped, that is 0 on the outermost ring (\<open>d = 0\<close>) and
  127 on the next one (\<open>d = 1\<close>), whatever alpha the input had; when \<open>d \<ge> 2\<close> the four bytes
  of the pixel are those of the input.
\<close>

theorem applyEdgeSoftening_rim_and_interior:
  assumes "Point_In x y (Rect img)"
    and "d = min (min (x - Min_X (Rect img)) (Max_X (Rect img) - x - 1))
               (min (y - Min_Y (Rect img)) (Max_Y (Rect img) - y - 1))"
  shows "(d = 0 \<longrightarrow> A (RGBAAt (applyEdgeSoftening img) x y) = 0) \<and>
         (d < 2 \<longrightarrow> int (unat (A (RGBAAt (applyEdgeSoftening img) x y))) = \<lfloor>255 * (real_of_int d / 2)\<rfloor>) \<and>
         (2 \<le> d \<longrightarrow> RGBAAt (applyEdgeSoftening img) x y = RGBAAt img x y)"
proof -
  have d0: "0 \<le> d" using assms by (auto simp: Point_In_def)
  have out: "RGBAAt (applyEdgeSoftening img) x y =
               rgbaModel (applyEdgeSoftening_colour img (Rect img) x y)"
    using assms(1) by (simp add: applyEdgeSoftening_RGBAAt)
  have c0: "A (RGBAAt (applyEdgeSoftening img) x y) = 0" if "d = 0"
  proof -
    have "applyEdgeSoftening_colour img (Rect img) x y =
            Color_NRGBA (R (RGBAAt img x y)) (G (RGBAAt img x y)) (B (RGBAAt img x y)) 0"
      unfolding applyEdgeSoftening_colour_def Let_def assms(2) [symmetric] that
      using soft_lt_1(2) soft_alpha_0 by (simp add: float64_zero)
    then show ?thesis unfolding out by (simp only: rgbaModel_NRGBA_A)
  qed
  have c1: "A (RGBAAt (applyEdgeSoftening img) x y) = 127" if "d = 1"
  proof -
    have "applyEdgeSoftening_colour img (Rect img) x y =
            Color_NRGBA (R (RGBAAt img x y)) (G (RGBAAt img x y)) (B (RGBAAt img x y)) 127"
      unfolding applyEdgeSoftening_colour_def Let_def assms(2) [symmetric] that
      using soft_lt_1(1) soft_alpha_1 float64_of_int_exact [of 1] by simp
    then show ?thesis unfolding out by (simp only: rgbaModel_NRGBA_A)
  qed
  have c2: "RGBAAt (applyEdgeSoftening img) x y = RGBAAt img x y" if "2 \<le> d"
  proof -
    have "float64 2 \<le> float64 (of_int d)" using that by (intro float64_mono) simp
    then have "\<not> float64 (of_int d) < 2" by (simp add: float64_2)
    then show ?thesis
      unfolding out applyEdgeSoftening_colour_def Let_def assms(2) [symmetric]
      by (simp add: At_def)
  qed
  have "d = 0 \<or> d = 1" if "d < 2" using that d0 by linarith
  then show ?thesis using c0 c1 c2 by auto
qed

theorem applyEdgeSoftening_rim_and_interior_witness:
  "Point_In 0 3 (Rect (uniform_image (image_Rect 0 0 5 5) (RGBA 10 20 30 255))) \<and>
   Point_In 1 1 (Rect (uniform_image (image_Rect 0 0 5 5) (RGBA 10 20 30 255))) \<and>
   Point_In 2 2 (Rect (uniform_image (image_Rect 0 0 5 5) (RGBA 10 20 30 255))) \<and>
   A (RGBAAt (applyEdgeSoftening (uniform_image (image_Rect 0 0 5 5) (RGBA 10 20 30 255))) 0 3) = 0 \<and>
   int (unat (A (RGBAAt (applyEdgeSoftening
      (uniform_image (image_Rect 0 0 5 5) (RGBA 10 20 30 255))) 1 1))) = 127 \<and>
   RGBAAt (applyEdgeSoftening (uniform_image (image_Rect 0 0 5 5) (RGBA 10 20 30 255))) 2 2
     = RGBA 10 20 30 255"
proof -
  let ?img = "uniform_image (image_Rect 0 0 5 5) (RGBA 10 20 30 255)"
  have r: "Rect ?img = \<lparr>Min_X = 0, Min_Y = 0, Max_X = 5, Max_Y = 5\<rparr>"
    by (simp add: uniform_image_def image_Rect_def)
  have h: "Point_In 0 3 (Rect ?img)" "Point_In 1 1 (Rect ?img)" "Point_In 2 2 (Rect ?img)"
    unfolding r by (simp_all add: Point_In_def)
  have d0: "(0::int) = min (min (0 - Min_X (Rect ?img)) (Max_X (Rect ?img) - 0 - 1))
                         (min (3 - Min_Y (Rect ?img)) (Max_Y (Rect ?img) - 3 - 1))"
    and d1: "(1::int) = min (min (1 - Min_X (Rect ?img)) (Max_X (Rect ?img) - 1 - 1))
                            (min (1 - Min_Y (Rect ?img)) (Max_Y (Rect ?img) - 1 - 1))"
    and d2: "(2::int) = min (min (2 - Min_X (Rect ?img)) (Max_X (Rect ?img) - 2 - 1))
                            (min (2 - Min_Y (Rect ?img)) (Max_Y (Rect ?img) - 2 - 1))"
    unfolding r by simp_all
  have i: "RGBAAt ?img 2 2 = RGBA 10 20 30 255"
    by (simp add: RGBAAt_def r Point_In_def) (simp add: uniform_image_def)
  show ?thesis
    using h applyEdgeSoftening_rim_and_interior [OF h(1) d0]
      applyEdgeSoftening_rim_and_interior [OF h(2) d1]
      applyEdgeSoftening_rim_and_interior [OF h(3) d2]
    by (simp add: i)
qed

section \<open>Rounded corners\<close>

text \<open>
  \<^verbatim>\<open>shouldRound\<close>, the body of the loop of \<^verbatim>\<open>applyRoundedCorners\<close> for given
  radii, and the stage itself, which first draws the four radii, top left, top right,
  bottom left, bottom right, each as \<^verbatim>\<open>6 + rand.Float64()*6\<close>.
\<close>

definition shouldRound :: "real \<Rightarrow> real \<Rightarrow> real \<Rightarrow> bool" where
  "shouldRound dist1 dist2 radius =
     (if dist1 \<ge> radius \<or> dist2 \<ge> radius then False
      else (let cornerDist =
                  sub64 (math_Sqrt (add64 (mul64 (sub64 radius dist1) (sub64 radius dist1))
                                          (mul64 (sub64 radius dist2) (sub64 radius dist2))))
                        radius
            in cornerDist > 0))"

definition applyRoundedCorners_body ::
  "image \<Rightarrow> Rectangle \<Rightarrow> real \<Rightarrow> real \<Rightarrow> real \<Rightarrow> real \<Rightarrow> int \<Rightarrow> int \<Rightarrow> image \<Rightarrow> image" where
  "applyRoundedCorners_body img bounds topLeftRadius topRightRadius bottomLeftRadius
       bottomRightRadius x y result =
     (let distFromLeft = float64 (of_int (x - Min_X bounds));
          distFromRight = float64 (of_int (Max_X bounds - x - 1));
          distFromTop = float64 (of_int (y - Min_Y bounds));
          distFromBottom = float64 (of_int (Max_Y bounds - y - 1))
      in if shouldRound distFromLeft distFromTop topLeftRadius \<or>
            shouldRound distFromRight distFromTop topRightRadius \<or>
            shouldRound distFromLeft distFromBottom bottomLeftRadius \<or>
            shouldRound distFromRight distFromBottom bottomRightRadius
         then RGBA_Set result x y (Color_NRGBA 0 0 0 0)
         else RGBA_Set result x y (At img x y))"

text \<open>The loop of \<^verbatim>\<open>applyRoundedCorners\<close>, once the four radii are drawn.\<close>

definition applyRoundedCorners_radii :: "image \<Rightarrow> real \<Rightarrow> real \<Rightarrow> real \<Rightarrow> real \<Rightarrow> image" where
  "applyRoundedCorners_radii img topLeftRadius topRightRadius bottomLeftRadius bottomRightRadius =
     (let bounds = Rect img;
          result = NewRGBA bounds
      in raster bounds
           (applyRoundedCorners_body img bounds topLeftRadius topRightRadius bottomLeftRadius
              bottomRightRadius)
           result)"

definition applyRoundedCorners :: "image \<Rightarrow> rand_source \<Rightarrow> image \<times> rand_source" where
  "applyRoundedCorners img rng =
     (let (u, rng) = rand_Float64 rng; topLeftRadius = add64 6 (mul64 u 6);
          (u, rng) = rand_Float64 rng; topRightRadius = add64 6 (mul64 u 6);
          (u, rng) = rand_Float64 rng; bottomLeftRadius = add64 6 (mul64 u 6);
          (u, rng) = rand_Float64 rng; bottomRightRadius = add64 6 (mul64 u 6)
      in (applyRoundedCorners_radii img topLeftRadius topRightRadius bottomLeftRadius
            bottomRightRadius, rng))"

lemma applyRoundedCorners_body_colour:
  "applyRoundedCorners_body img bounds r1 r2 r3 r4 =
     (\<lambda>x y result. RGBA_Set result x y
        (if shouldRound (float64 (of_int (x - Min_X bounds))) (float64 (of_int (y - Min_Y bounds))) r1 \<or>
            shouldRound (float64 (of_int (Max_X bounds - x - 1))) (float64 (of_int (y - Min_Y bounds))) r2 \<or>
            shouldRound (float64 (of_int (x - Min_X bounds))) (float64 (of_int (Max_Y bounds - y - 1))) r3 \<or>
            shouldRound (float64 (of_int (Max_X bounds - x - 1))) (float64 (of_int (Max_Y bounds - y - 1))) r4
         then Color_NRGBA 0 0 0 0 else At img x y))"
  unfolding applyRoundedCorners_body_def Let_def by (intro ext) simp

lemma applyRoundedCorners_radii_Rect: "Rect (applyRoundedCorners_radii img r1 r2 r3 r4) = Rect img"
  by (simp add: applyRoundedCorners_radii_def Let_def applyRoundedCorners_body_colour
      fresh_raster_Rect)

lemma applyRoundedCorners_Rect: "Rect (fst (applyRoundedCorners img rng)) = Rect img"
  by (simp add: applyRoundedCorners_def Let_def split_def applyRoundedCorners_radii_Rect)

lemma applyRoundedCorners_radii_RGBAAt:
  "RGBAAt (applyRoundedCorners_radii img r1 r2 r3 r4) x y =
     (if Point_In x y (Rect img)
      then (if shouldRound (float64 (of_int (x - Min_X (Rect img)))) (float64 (of_int (y - Min_Y (Rect img)))) r1 \<or>
               shouldRound (float64 (of_int (Max_X (Rect img) - x - 1))) (float64 (of_int (y - Min_Y (Rect img)))) r2 \<or>
               shouldRound (float64 (of_int (x - Min_X (Rect img)))) (float64 (of_int (Max_Y (Rect img) - y - 1))) r3 \<or>
               shouldRound (float64 (of_int (Max_X (Rect img) - x - 1))) (float64 (of_int (Max_Y (Rect img) - y - 1))) r4
            then RGBA 0 0 0 0 else RGBAAt img x y)
      else RGBA 0 0 0 0)"
  unfolding applyRoundedCorners_radii_def Let_def applyRoundedCorners_body_colour
    fresh_raster_RGBAAt
  by (simp add: rgbaModel_transparent At_def del: rgbaModel.simps(2))

lemma corner_distance_lower:
  assumes a: "0 < a" "a < 2 ^ 26" "of_int a \<le> r"
    and c: "float64 c = c" "0 \<le> c" "c * c \<le> 2 * (of_int a * of_int a)"
  shows "c \<le> math_Sqrt (add64 (mul64 (sub64 r 0) (sub64 r 0)) (mul64 (sub64 r 0) (sub64 r 0)))"
proof -
  define r' where "r' = float64 r"
  define p where "p = float64 (r' * r')"
  have a1: "float64 (of_int a) = of_int a"
    using a by (intro float64_of_int_exact) simp
  have "float64 (of_int a) \<le> r'" unfolding r'_def using a(3) by (rule float64_mono)
  then have r': "of_int a \<le> r'" by (simp only: a1)
  have a0: "(0::real) \<le> of_int a" using a(1) by simp
  have sq: "(of_int a :: real) * of_int a \<le> r' * r'"
    using r' a0 by (intro mult_mono) simp_all
  have "a * a < 2 ^ 26 * 2 ^ 26"
    using a(1,2) by (intro mult_strict_mono) simp_all
  then have aa: "\<bar>a * a\<bar> < 2 ^ 53" "\<bar>2 * (a * a)\<bar> < 2 ^ 53" using a(1) by simp_all
  have "float64 (of_int (a * a)) \<le> p"
    unfolding p_def using sq by (intro float64_mono) simp
  then have p: "of_int (a * a) \<le> p"
    using float64_of_int_exact [OF aa(1)] by simp
  have "float64 (of_int (2 * (a * a))) \<le> float64 (p + p)"
    using p by (intro float64_mono) simp
  then have s: "of_int (2 * (a * a)) \<le> float64 (p + p)"
    using float64_of_int_exact [OF aa(2)] by simp
  have "c * c \<le> float64 (p + p)" using s c(3) by simp
  then have "sqrt (c * c) \<le> sqrt (float64 (p + p))" by (rule real_sqrt_le_mono)
  then have "c \<le> sqrt (float64 (p + p))" using c(2) by simp
  then have "float64 c \<le> float64 (sqrt (float64 (p + p)))" by (rule float64_mono)
  then show ?thesis
    by (simp add: c(1) math_Sqrt_def add64_def mul64_def sub64_def p_def r'_def)
qed

lemma shouldRound_origin:
  assumes "6 \<le> r" "r \<le> 12"
  shows "shouldRound 0 0 r"
proof -
  define q where "q = math_Sqrt (add64 (mul64 (sub64 r 0) (sub64 r 0)) (mul64 (sub64 r 0) (sub64 r 0)))"
  have gt: "r < q"
  proof -
    consider "r \<le> 8" | "8 \<le> r" "r \<le> 11" | "11 \<le> r" using assms by linarith
    then show ?thesis
    proof cases
      case 1
      have "float64 (33 / 4) = 33 / 4" by (simp add: float64_eval)
      then have "33 / 4 \<le> q"
        unfolding q_def using assms by (intro corner_distance_lower [of 6]) simp_all
      then show ?thesis using 1 by simp
    next
      case 2
      have "float64 (45 / 4) = 45 / 4" by (simp add: float64_eval)
      then have "45 / 4 \<le> q"
        unfolding q_def using 2 by (intro corner_distance_lower [of 8]) simp_all
      then show ?thesis using 2 by simp
    next
      case 3
      have "float64 (31 / 2) = 31 / 2" by (simp add: float64_eval)
      then have "31 / 2 \<le> q"
        unfolding q_def using 3 by (intro corner_distance_lower [of 11]) simp_all
      then show ?thesis using assms by simp
    qed
  qed
  then have "0 < float64 (q - r)" by (intro float64_pos) simp
  then show ?thesis
    using assms by (simp add: shouldRound_def Let_def sub64_def [of _ r] q_def)
qed

lemma shouldRound_far: "radius \<le> dist1 \<or> radius \<le> dist2 \<Longrightarrow> \<not> shouldRound dist1 dist2 radius"
  by (auto simp: shouldRound_def)

lemma rounded_corner_transparent:
  assumes "6 \<le> r1" "r1 \<le> 12" "\<not> Empty (Rect img)"
  shows "RGBAAt (applyRoundedCorners_radii img r1 r2 r3 r4) (Min_X (Rect img)) (Min_Y (Rect img))
           = RGBA 0 0 0 0"
proof -
  have "Point_In (Min_X (Rect img)) (Min_Y (Rect img)) (Rect img)"
    using assms(3) by (simp add: Point_In_def Empty_def)
  moreover have "shouldRound (float64 (of_int (Min_X (Rect img) - Min_X (Rect img))))
                   (float64 (of_int (Min_Y (Rect img) - Min_Y (Rect img)))) r1"
    using shouldRound_origin [OF assms(1,2)] by (simp add: float64_zero)
  ultimately show ?thesis
    by (simp only: applyRoundedCorners_radii_RGBAAt if_True simp_thms)
qed

lemma rounded_centre_kept:
  assumes r: "r1 \<le> 12" "r2 \<le> 12" "r3 \<le> 12" "r4 \<le> 12"
    and size: "25 \<le> Dx (Rect img)" "25 \<le> Dy (Rect img)"
  shows "RGBAAt (applyRoundedCorners_radii img r1 r2 r3 r4)
           (Min_X (Rect img) + Dx (Rect img) div 2) (Min_Y (Rect img) + Dy (Rect img) div 2)
         = RGBAAt img (Min_X (Rect img) + Dx (Rect img) div 2)
             (Min_Y (Rect img) + Dy (Rect img) div 2)"
proof -
  define x where "x = Min_X (Rect img) + Dx (Rect img) div 2"
  define y where "y = Min_Y (Rect img) + Dy (Rect img) div 2"
  have far: "12 \<le> float64 (of_int k)" if "12 \<le> k" for k :: int
  proof -
    have "float64 (of_int 12) \<le> float64 (of_int k)" using that by (intro float64_mono) simp
    then show ?thesis using float64_of_int_exact [of 12] by simp
  qed
  have l: "12 \<le> x - Min_X (Rect img)" and rr: "12 \<le> Max_X (Rect img) - x - 1"
    using size(1) by (simp_all add: x_def Dx_def)
  have n1: "\<not> shouldRound (float64 (of_int (x - Min_X (Rect img)))) d r1"
    and n3: "\<not> shouldRound (float64 (of_int (x - Min_X (Rect img)))) d r3" for d
    using far [OF l] r by (auto intro!: shouldRound_far)
  have n2: "\<not> shouldRound (float64 (of_int (Max_X (Rect img) - x - 1))) d r2"
    and n4: "\<not> shouldRound (float64 (of_int (Max_X (Rect img) - x - 1))) d r4" for d
    using far [OF rr] r by (auto intro!: shouldRound_far)
  have "RGBAAt (applyRoundedCorners_radii img r1 r2 r3 r4) x y =
          (if Point_In x y (Rect img) then RGBAAt img x y else RGBA 0 0 0 0)"
    by (simp only: applyRoundedCorners_radii_RGBAAt n1 n2 n3 n4 simp_thms if_False)
  then show ?thesis
    unfolding x_def [symmetric] y_def [symmetric] by (simp add: RGBAAt_def)
qed

text \<open>
  C8.  Rounded corners, for any four radii in \<open>[6, 12)\<close>: the pixel at the top-left corner
  of a non-empty buffer (buffer-relative \<open>(0, 0)\<close>) becomes fully transparent, and the
  centre pixel of a buffer at least 25 pixels wide and high, as the 750 by 750 buffer of
  the pipeline is, keeps the value it had in the input.
\<close>

theorem applyRoundedCorners_corner_and_centre:
  assumes "6 \<le> r1" "r1 < 12" "6 \<le> r2" "r2 < 12" "6 \<le> r3" "r3 < 12" "6 \<le> r4" "r4 < 12"
  shows "(\<not> Empty (Rect img) \<longrightarrow>
            RGBAAt (applyRoundedCorners_radii img r1 r2 r3 r4) (Min_X (Rect img)) (Min_Y (Rect img))
              = RGBA 0 0 0 0) \<and>
         (25 \<le> Dx (Rect img) \<and> 25 \<le> Dy (Rect img) \<longrightarrow>
            RGBAAt (applyRoundedCorners_radii img r1 r2 r3 r4)
              (Min_X (Rect img) + Dx (Rect img) div 2) (Min_Y (Rect img) + Dy (Rect img) div 2)
            = RGBAAt img (Min_X (Rect img) + Dx (Rect img) div 2)
                (Min_Y (Rect img) + Dy (Rect img) div 2))"
  using assms rounded_corner_transparent [of r1 img r2 r3 r4]
    rounded_centre_kept [of r1 r2 r3 r4 img]
  by simp

theorem applyRoundedCorners_corner_and_centre_witness:
  "\<not> Empty (Rect (NewRGBA (image_Rect 0 0 750 750)\<lparr>Pix := (\<lambda>p. RGBA 9 8 7 255)\<rparr>)) \<and>
   RGBAAt (applyRoundedCorners_radii (NewRGBA (image_Rect 0 0 750 750)\<lparr>Pix := (\<lambda>p. RGBA 9 8 7 255)\<rparr>)
      6 7 8 (23 / 2)) 0 0 = RGBA 0 0 0 0 \<and>
   RGBAAt (applyRoundedCorners_radii (NewRGBA (image_Rect 0 0 750 750)\<lparr>Pix := (\<lambda>p. RGBA 9 8 7 255)\<rparr>)
      6 7 8 (23 / 2)) 375 375 = RGBA 9 8 7 255"
proof -
  let ?img = "NewRGBA (image_Rect 0 0 750 750)\<lparr>Pix := (\<lambda>p. RGBA 9 8 7 255)\<rparr>"
  have r: "Rect ?img = \<lparr>Min_X = 0, Min_Y = 0, Max_X = 750, Max_Y = 750\<rparr>"
    by (simp add: NewRGBA_def image_Rect_def)
  have e: "\<not> Empty (Rect ?img)" "25 \<le> Dx (Rect ?img) \<and> 25 \<le> Dy (Rect ?img)"
    unfolding r by (simp_all add: Empty_def Dx_def Dy_def)
  have m: "Min_X (Rect ?img) = 0" "Min_Y (Rect ?img) = 0"
    "Min_X (Rect ?img) + Dx (Rect ?img) div 2 = 375" "Min_Y (Rect ?img) + Dy (Rect ?img) div 2 = 375"
    unfolding r by (simp_all add: Dx_def Dy_def)
  have i: "RGBAAt ?img 375 375 = RGBA 9 8 7 255"
    by (simp add: RGBAAt_def r Point_In_def)
  have "(6::real) \<le> 6" "(6::real) < 12" "(6::real) \<le> 7" "(7::real) < 12"
    "(6::real) \<le> 8" "(8::real) < 12" "(6::real) \<le> 23 / 2" "(23 / 2 :: real) < 12"
    by simp_all
  from applyRoundedCorners_corner_and_centre [OF this, of ?img]
  have "RGBAAt (applyRoundedCorners_radii ?img 6 7 8 (23 / 2)) (Min_X (Rect ?img)) (Min_Y (Rect ?img))
          = RGBA 0 0 0 0"
    and "RGBAAt (applyRoundedCorners_radii ?img 6 7 8 (23 / 2))
           (Min_X (Rect ?img) + Dx (Rect ?img) div 2) (Min_Y (Rect ?img) + Dy (Rect ?img) div 2)
         = RGBAAt ?img (Min_X (Rect ?img) + Dx (Rect ?img) div 2)
             (Min_Y (Rect ?img) + Dy (Rect ?img) div 2)"
    using e by blast+
  then show ?thesis using e(1) unfolding m(3,4) i unfolding m(1,2) by blast
qed

text \<open>
  The radii that \<^verbatim>\<open>applyRoundedCorners\<close> computes from its four draws lie in
  \<open>[6, 12]\<close>, so the same holds for the stage as it runs.
\<close>

lemma drawn_radius_range:
  assumes "0 \<le> u" "u < 1"
  shows "6 \<le> add64 6 (mul64 u 6) \<and> add64 6 (mul64 u 6) \<le> 12"
proof -
  have e: "float64 6 = 6" "float64 12 = 12"
    using float64_of_int_exact [of 6] float64_of_int_exact [of 12] by simp_all
  have "float64 0 \<le> float64 (u * 6)" using assms by (intro float64_mono) simp
  then have lo: "0 \<le> mul64 u 6" by (simp add: mul64_def float64_zero)
  have "float64 (u * 6) \<le> float64 6" using assms by (intro float64_mono) simp
  then have hi: "mul64 u 6 \<le> 6" by (simp add: mul64_def e)
  have "float64 6 \<le> float64 (6 + mul64 u 6)" using lo by (intro float64_mono) simp
  moreover have "float64 (6 + mul64 u 6) \<le> float64 12" using hi by (intro float64_mono) simp
  ultimately show ?thesis by (simp add: add64_def e)
qed

lemma applyRoundedCorners_drawn:
  assumes "\<forall>n < 4. 0 \<le> rng n \<and> rng n < 1"
  shows "(\<not> Empty (Rect img) \<longrightarrow>
            RGBAAt (fst (applyRoundedCorners img rng)) (Min_X (Rect img)) (Min_Y (Rect img))
              = RGBA 0 0 0 0) \<and>
         (25 \<le> Dx (Rect img) \<and> 25 \<le> Dy (Rect img) \<longrightarrow>
            RGBAAt (fst (applyRoundedCorners img rng))
              (Min_X (Rect img) + Dx (Rect img) div 2) (Min_Y (Rect img) + Dy (Rect img) div 2)
            = RGBAAt img (Min_X (Rect img) + Dx (Rect img) div 2)
                (Min_Y (Rect img) + Dy (Rect img) div 2))"
proof -
  have u: "0 \<le> rng 0 \<and> rng 0 < 1" "0 \<le> rng (Suc 0) \<and> rng (Suc 0) < 1"
    "0 \<le> rng (Suc (Suc 0)) \<and> rng (Suc (Suc 0)) < 1"
    "0 \<le> rng (Suc (Suc (Suc 0))) \<and> rng (Suc (Suc (Suc 0))) < 1"
    using assms by simp_all
  show ?thesis
    unfolding applyRoundedCorners_def rand_Float64_def Let_def split_def fst_conv snd_conv
    using u rounded_corner_transparent [of "add64 6 (mul64 (rng 0) 6)" img]
      rounded_centre_kept [of "add64 6 (mul64 (rng 0) 6)" "add64 6 (mul64 (rng (Suc 0)) 6)"
        "add64 6 (mul64 (rng (Suc (Suc 0))) 6)" "add64 6 (mul64 (rng (Suc (Suc (Suc 0)))) 6)" img]
      drawn_radius_range [of "rng 0"] drawn_radius_range [of "rng (Suc 0)"]
      drawn_radius_range [of "rng (Suc (Suc 0))"] drawn_radius_range [of "rng (Suc (Suc (Suc 0)))"]
    by simp
qed

section \<open>Reflection\<close>

text \<open>The body of the loop of \<^verbatim>\<open>applyReflection\<close>, and the stage.\<close>

definition applyReflection_body :: "image \<Rightarrow> int \<Rightarrow> int \<Rightarrow> image \<Rightarrow> image" where
  "applyReflection_body img x y result =
     (let original = RGBAAt img x y;
          fx = div64 (float64 (of_int x)) (float64 (of_int targetWidth));
          fy = div64 (float64 (of_int y)) (float64 (of_int targetHeight));
          reflectionIntensity = max 0 (mul64 (float64 0.3) (sub64 1 (div64 (add64 fx fy) 2)));
          r = min 255 (add64 (float64_of_uint8 (R original)) (mul64 reflectionIntensity 40));
          g = min 255 (add64 (float64_of_uint8 (G original)) (mul64 reflectionIntensity 40));
          b = min 255 (add64 (float64_of_uint8 (B original)) (mul64 reflectionIntensity 40))
      in RGBA_Set result x y
           (Color_RGBA (RGBA (uint8_of_float64 r) (uint8_of_float64 g) (uint8_of_float64 b)
              (A original))))"

definition applyReflection :: "image \<Rightarrow> image" where
  "applyReflection img =
     (let bounds = Rect img;
          result = NewRGBA bounds
      in raster bounds (applyReflection_body img) result)"

lemma applyReflection_Rect: "Rect (applyReflection img) = Rect img"
  unfolding applyReflection_def applyReflection_body_def [abs_def] Let_def
  by (simp add: fresh_raster_Rect)

section \<open>Rotation\<close>

text \<open>
  \<^verbatim>\<open>applyRotation\<close> draws the angle, scales the input into an intermediate square
  buffer and samples that buffer for each pixel of the 750 by 750 canvas.  The pieces of
  the function are defined one by one and put together in \<open>applyRotation\<close>.
\<close>

text \<open>The source coordinate \<open>(rx, ry)\<close> of the destination pixel \<open>(x, y)\<close>.\<close>

definition applyRotation_source ::
  "externals \<Rightarrow> real \<Rightarrow> int \<Rightarrow> int \<Rightarrow> int \<Rightarrow> real \<times> real" where
  "applyRotation_source ext angle scaledSize x y =
     (let centerX = div64 (float64 (of_int targetWidth)) 2;
          centerY = div64 (float64 (of_int targetHeight)) 2;
          fx = sub64 (float64 (of_int x)) centerX;
          fy = sub64 (float64 (of_int y)) centerY;
          rx = sub64 (mul64 fx (math_Cos ext (- angle))) (mul64 fy (math_Sin ext (- angle)));
          ry = add64 (mul64 fx (math_Sin ext (- angle))) (mul64 fy (math_Cos ext (- angle)));
          rx = add64 rx (div64 (float64 (of_int scaledSize)) 2);
          ry = add64 ry (div64 (float64 (of_int scaledSize)) 2)
      in (rx, ry))"

text \<open>The test that guards the bilinear sampling.\<close>

definition applyRotation_inside :: "int \<Rightarrow> real \<Rightarrow> real \<Rightarrow> bool" where
  "applyRotation_inside scaledSize rx ry =
     (rx \<ge> 1 \<and> ry \<ge> 1 \<and> rx < float64 (of_int (scaledSize - 1))
        \<and> ry < float64 (of_int (scaledSize - 1)))"

text \<open>One channel of the interpolated colour.\<close>

definition applyRotation_blend :: "uint8 \<Rightarrow> uint8 \<Rightarrow> uint8 \<Rightarrow> uint8 \<Rightarrow> real \<Rightarrow> real \<Rightarrow> uint8" where
  "applyRotation_blend c00 c10 c01 c11 fx fy =
     uint8_of_float64
       (add64 (add64 (add64 (mul64 (mul64 (float64_of_uint8 c00) (sub64 1 fx)) (sub64 1 fy))
                            (mul64 (mul64 (float64_of_uint8 c10) fx) (sub64 1 fy)))
                     (mul64 (mul64 (float64_of_uint8 c01) (sub64 1 fx)) fy))
              (mul64 (mul64 (float64_of_uint8 c11) fx) fy))"

definition applyRotation_body ::
  "externals \<Rightarrow> real \<Rightarrow> int \<Rightarrow> image \<Rightarrow> int \<Rightarrow> int \<Rightarrow> image \<Rightarrow> image" where
  "applyRotation_body ext angle scaledSize scaled x y result =
     (let (rx, ry) = applyRotation_source ext angle scaledSize x y
      in if applyRotation_inside scaledSize rx ry then
           (let x0 = int_of_float64 rx; y0 = int_of_float64 ry;
                x1 = x0 + 1; y1 = y0 + 1;
                fx = sub64 rx (float64 (of_int x0));
                fy = sub64 ry (float64 (of_int y0));
                c00 = RGBAAt scaled x0 y0;
                c01 = RGBAAt scaled x0 y1;
                c10 = RGBAAt scaled x1 y0;
                c11 = RGBAAt scaled x1 y1;
                r = applyRotation_blend (R c00) (R c10) (R c01) (R c11) fx fy;
                g = applyRotation_blend (G c00) (G c10) (G c01) (G c11) fx fy;
                b = applyRotation_blend (B c00) (B c10) (B c01) (B c11) fx fy;
                a = applyRotation_blend (A c00) (A c10) (A c01) (A c11) fx fy
            in RGBA_Set result x y (Color_RGBA (RGBA r g b a)))
         else result)"

text \<open>The angle, the size of the intermediate buffer and that buffer, from the draw \<open>u\<close>.\<close>

definition applyRotation_angle :: "real \<Rightarrow> real" where
  "applyRotation_angle u = div64 (mul64 (sub64 u 0.5) math_Pi) 180"

definition applyRotation_scaledSize :: "externals \<Rightarrow> real \<Rightarrow> int" where
  "applyRotation_scaledSize ext angle =
     (let cosA = \<bar>math_Cos ext angle\<bar>;
          sinA = \<bar>math_Sin ext angle\<bar>;
          scale = min (div64 1.0 (add64 cosA sinA)) 1.0
      in int_of_float64 (mul64 (float64 (of_int targetWidth)) scale))"

definition applyRotation_scaled :: "externals \<Rightarrow> image \<Rightarrow> int \<Rightarrow> image" where
  "applyRotation_scaled ext img scaledSize =
     (let scaled = NewRGBA (image_Rect 0 0 scaledSize scaledSize)
      in BiLinear_Scale ext scaled (Rect scaled) img (Rect img))"

definition applyRotation :: "externals \<Rightarrow> image \<Rightarrow> rand_source \<Rightarrow> image \<times> rand_source" where
  "applyRotation ext img rng =
     (let bounds = Rect img;
          (u, rng) = rand_Float64 rng;
          angle = applyRotation_angle u;
          scaledSize = applyRotation_scaledSize ext angle;
          scaled = applyRotation_scaled ext img scaledSize;
          result = NewRGBA bounds
      in (raster (image_Rect 0 0 targetWidth targetHeight)
            (applyRotation_body ext angle scaledSize scaled) result,
          rng))"

text \<open>The colour the loop body stores at \<open>(x, y)\<close>, if it stores one.\<close>

definition applyRotation_colour ::
  "externals \<Rightarrow> real \<Rightarrow> int \<Rightarrow> image \<Rightarrow> int \<Rightarrow> int \<Rightarrow> Color option" where
  "applyRotation_colour ext angle scaledSize scaled x y =
     (let rx = fst (applyRotation_source ext angle scaledSize x y);
          ry = snd (applyRotation_source ext angle scaledSize x y);
          x0 = int_of_float64 rx; y0 = int_of_float64 ry;
          fx = sub64 rx (float64 (of_int x0));
          fy = sub64 ry (float64 (of_int y0));
          c00 = RGBAAt scaled x0 y0;
          c01 = RGBAAt scaled x0 (y0 + 1);
          c10 = RGBAAt scaled (x0 + 1) y0;
          c11 = RGBAAt scaled (x0 + 1) (y0 + 1)
      in if applyRotation_inside scaledSize rx ry
         then Some (Color_RGBA (RGBA (applyRotation_blend (R c00) (R c10) (R c01) (R c11) fx fy)
                                     (applyRotation_blend (G c00) (G c10) (G c01) (G c11) fx fy)
                                     (applyRotation_blend (B c00) (B c10) (B c01) (B c11) fx fy)
                                     (applyRotation_blend (A c00) (A c10) (A c01) (A c11) fx fy)))
         else None)"

lemma applyRotation_paints:
  "paints (applyRotation_body ext angle scaledSize scaled)
     (applyRotation_colour ext angle scaledSize scaled)"
  by (simp add: paints_def applyRotation_body_def applyRotation_colour_def Let_def split_def)

lemma applyRotation_Rect: "Rect (fst (applyRotation ext img rng)) = Rect img"
  by (simp add: applyRotation_def Let_def split_def raster_Rect [OF applyRotation_paints]
      NewRGBA_def)

lemma applyRotation_RGBAAt:
  assumes "Rect img = image_Rect 0 0 750 750"
  shows "RGBAAt (fst (applyRotation ext img rng)) x y =
     (if Point_In x y (image_Rect 0 0 750 750)
      then (case applyRotation_colour ext (applyRotation_angle (rng 0))
                   (applyRotation_scaledSize ext (applyRotation_angle (rng 0)))
                   (applyRotation_scaled ext img
                      (applyRotation_scaledSize ext (applyRotation_angle (rng 0)))) x y of
              None \<Rightarrow> RGBA 0 0 0 0 | Some c \<Rightarrow> rgbaModel c)
      else RGBA 0 0 0 0)"
  by (simp add: applyRotation_def Let_def split_def rand_Float64_def RGBAAt_def
      raster_Rect [OF applyRotation_paints] raster_Pix [OF applyRotation_paints]
      NewRGBA_def assms split: option.split)

subsection \<open>The margin test and the angle 0\<close>

lemma applyRotation_inside_margin:
  assumes "\<bar>scaledSize - 1\<bar> < 2 ^ 53"
  shows "applyRotation_inside scaledSize rx ry =
           (1 \<le> int_of_float64 rx \<and> int_of_float64 rx \<le> scaledSize - 2 \<and>
            1 \<le> int_of_float64 ry \<and> int_of_float64 ry \<le> scaledSize - 2)"
proof -
  have e: "float64 (of_int (scaledSize - 1)) = of_int (scaledSize - 1)"
    using assms by (rule float64_of_int_exact)
  have one: "(1 \<le> t \<and> t < of_int (scaledSize - 1)) =
             (1 \<le> int_of_float64 t \<and> int_of_float64 t \<le> scaledSize - 2)" for t :: real
  proof (cases "0 \<le> t")
    case True
    have "(t < of_int (scaledSize - 1)) = (\<lfloor>t\<rfloor> < scaledSize - 1)"
      by (simp only: floor_less_iff)
    moreover have "(1 \<le> t) = (1 \<le> \<lfloor>t\<rfloor>)" by (simp add: le_floor_iff)
    ultimately show ?thesis using True by (auto simp: int_of_float64_def)
  next
    case False
    then have "\<lceil>t\<rceil> \<le> 0" by (simp add: ceiling_le_iff)
    then show ?thesis using False by (simp add: int_of_float64_def)
  qed
  show ?thesis
    unfolding applyRotation_inside_def e using one [of rx] one [of ry] by auto
qed

lemma applyRotation_scaledSize_range:
  "0 \<le> applyRotation_scaledSize ext angle \<and> applyRotation_scaledSize ext angle \<le> 750"
proof -
  define scale where
    "scale = min (div64 1 (add64 \<bar>math_Cos ext angle\<bar> \<bar>math_Sin ext angle\<bar>)) 1"
  have e: "float64 750 = 750" using float64_of_int_exact [of 750] by simp
  have "float64 0 \<le> float64 (\<bar>math_Cos ext angle\<bar> + \<bar>math_Sin ext angle\<bar>)"
    by (intro float64_mono) simp
  then have "0 \<le> 1 / add64 \<bar>math_Cos ext angle\<bar> \<bar>math_Sin ext angle\<bar>"
    by (simp add: add64_def float64_zero)
  then have "float64 0 \<le> div64 1 (add64 \<bar>math_Cos ext angle\<bar> \<bar>math_Sin ext angle\<bar>)"
    unfolding div64_def by (rule float64_mono)
  then have s: "0 \<le> scale" "scale \<le> 1" by (simp_all add: scale_def float64_zero)
  have "float64 0 \<le> float64 (750 * scale)" using s by (intro float64_mono) simp
  then have lo: "0 \<le> mul64 (float64 750) scale" by (simp add: mul64_def e float64_zero)
  have "float64 (750 * scale) \<le> float64 750" using s by (intro float64_mono) simp
  then have hi: "mul64 (float64 750) scale \<le> 750" by (simp add: mul64_def e)
  have "\<lfloor>mul64 (float64 750) scale\<rfloor> \<le> 750" using hi by (simp add: floor_le_iff)
  then show ?thesis
    using lo by (simp add: applyRotation_scaledSize_def Let_def scale_def int_of_float64_def)
qed

lemma applyRotation_angle_half: "applyRotation_angle (1 / 2) = 0"
  by (simp add: applyRotation_angle_def sub64_def mul64_def div64_def float64_zero)

lemma applyRotation_scaledSize_zero:
  assumes "math_Cos ext 0 = 1" "math_Sin ext 0 = 0"
  shows "applyRotation_scaledSize ext 0 = 750"
proof -
  have e: "float64 750 = 750" "float64 1 = 1"
    using float64_of_int_exact [of 750] float64_of_int_exact [of 1] by simp_all
  show ?thesis
    by (simp add: applyRotation_scaledSize_def Let_def assms add64_def div64_def mul64_def e
        int_of_float64_def)
qed

lemma applyRotation_source_zero:
  assumes t: "math_Cos ext 0 = 1" "math_Sin ext 0 = 0"
    and x: "0 \<le> x" "x < 750" and y: "0 \<le> y" "y < 750"
  shows "applyRotation_source ext 0 750 x y = (of_int x, of_int y)"
proof -
  have e: "float64 750 = 750" "float64 375 = 375"
    using float64_of_int_exact [of 750] float64_of_int_exact [of 375] by simp_all
  have i: "float64 (of_int k) = of_int k" "float64 (of_int k - 375) = of_int k - 375"
    if "0 \<le> k" "k < 750" for k :: int
    using float64_of_int_exact [of k] float64_of_int_exact [of "k - 375"] that by simp_all
  show ?thesis
    by (simp add: applyRotation_source_def Let_def t div64_def sub64_def mul64_def add64_def e
        float64_zero i [OF x] i [OF y])
qed

lemma blend_weights_zero:
  assumes "float64 c = c"
  shows "add64 (add64 (add64 (mul64 (mul64 c (sub64 1 0)) (sub64 1 0))
                             (mul64 (mul64 d1 0) (sub64 1 0)))
                      (mul64 (mul64 d2 (sub64 1 0)) 0))
               (mul64 (mul64 d3 0) 0) = c"
proof -
  have e: "float64 1 = 1" using float64_of_int_exact [of 1] by simp
  show ?thesis
    by (simp add: sub64_def mul64_def add64_def float64_zero e assms)
qed

lemma applyRotation_blend_zero: "applyRotation_blend c00 c10 c01 c11 0 0 = c00"
  unfolding applyRotation_blend_def
  by (simp only: blend_weights_zero [OF float64_float64_of_uint8] uint8_of_float64_of_uint8)

lemma applyRotation_colour_zero:
  assumes t: "math_Cos ext 0 = 1" "math_Sin ext 0 = 0"
    and x: "1 \<le> x" "x \<le> 748" and y: "1 \<le> y" "y \<le> 748"
  shows "applyRotation_colour ext 0 750 scaled x y = Some (Color_RGBA (RGBAAt scaled x y))"
proof -
  have src: "applyRotation_source ext 0 750 x y = (of_int x, of_int y)"
    using t x y by (intro applyRotation_source_zero) simp_all
  have i: "float64 (of_int k) = of_int k" if "0 \<le> k" "k < 750" for k :: int
    using float64_of_int_exact [of k] that by simp
  have ins: "applyRotation_inside 750 (of_int x) (of_int y)"
    using x y by (simp add: applyRotation_inside_margin int_of_float64_def)
  have t0: "int_of_float64 (of_int k) = k" for k by (simp add: int_of_float64_def)
  have fx: "sub64 (of_int x) (float64 (of_int x)) = 0" "sub64 (of_int y) (float64 (of_int y)) = 0"
    using x y by (simp_all add: i sub64_def float64_zero)
  show ?thesis
    unfolding applyRotation_colour_def Let_def src fst_conv snd_conv t0 fx
      applyRotation_blend_zero
    using ins by simp
qed

text \<open>
  C4.  Rotation of a 750 by 750 buffer.  For every angle (every draw and every cosine and
  sine), a destination pixel whose source coordinate has its integer part outside
  \<open>[1, size - 2]\<close> in either direction, \<open>size\<close> being the side of the intermediate buffer,
  stays fully transparent.  When the draw is \<open>1/2\<close> the angle is 0, the intermediate
  buffer is the input scaled to 750 by 750, and every destination pixel within the margin
  \<open>[1, 748]\<close> is exactly the pixel of that buffer at the same place.
\<close>

theorem applyRotation_margin_and_zero_angle:
  assumes "Rect img = image_Rect 0 0 750 750"
  shows "(\<not> (1 \<le> int_of_float64 (fst (applyRotation_source ext (applyRotation_angle (rng 0))
                    (applyRotation_scaledSize ext (applyRotation_angle (rng 0))) x y)) \<and>
              int_of_float64 (fst (applyRotation_source ext (applyRotation_angle (rng 0))
                    (applyRotation_scaledSize ext (applyRotation_angle (rng 0))) x y))
                \<le> applyRotation_scaledSize ext (applyRotation_angle (rng 0)) - 2 \<and>
              1 \<le> int_of_float64 (snd (applyRotation_source ext (applyRotation_angle (rng 0))
                    (applyRotation_scaledSize ext (applyRotation_angle (rng 0))) x y)) \<and>
              int_of_float64 (snd (applyRotation_source ext (applyRotation_angle (rng 0))
                    (applyRotation_scaledSize ext (applyRotation_angle (rng 0))) x y))
                \<le> applyRotation_scaledSize ext (applyRotation_angle (rng 0)) - 2)
            \<longrightarrow> RGBAAt (fst (applyRotation ext img rng)) x y = RGBA 0 0 0 0) \<and>
         (rng 0 = 1 / 2 \<and> math_Cos ext 0 = 1 \<and> math_Sin ext 0 = 0 \<and>
          1 \<le> x \<and> x \<le> 748 \<and> 1 \<le> y \<and> y \<le> 748
            \<longrightarrow> applyRotation_angle (rng 0) = 0 \<and>
                RGBAAt (fst (applyRotation ext img rng)) x y =
                  RGBAAt (applyRotation_scaled ext img 750) x y)"
proof -
  define angle where "angle = applyRotation_angle (rng 0)"
  define size where "size = applyRotation_scaledSize ext angle"
  define scaled where "scaled = applyRotation_scaled ext img size"
  have out: "RGBAAt (fst (applyRotation ext img rng)) x y =
               (if Point_In x y (image_Rect 0 0 750 750)
                then (case applyRotation_colour ext angle size scaled x y of
                        None \<Rightarrow> RGBA 0 0 0 0 | Some c \<Rightarrow> rgbaModel c)
                else RGBA 0 0 0 0)"
    unfolding angle_def size_def scaled_def by (rule applyRotation_RGBAAt [OF assms])
  have sz: "\<bar>size - 1\<bar> < 2 ^ 53"
    using applyRotation_scaledSize_range [of ext angle] unfolding size_def by auto
  have margin: "RGBAAt (fst (applyRotation ext img rng)) x y = RGBA 0 0 0 0"
    if "\<not> (1 \<le> int_of_float64 (fst (applyRotation_source ext angle size x y)) \<and>
             int_of_float64 (fst (applyRotation_source ext angle size x y)) \<le> size - 2 \<and>
             1 \<le> int_of_float64 (snd (applyRotation_source ext angle size x y)) \<and>
             int_of_float64 (snd (applyRotation_source ext angle size x y)) \<le> size - 2)"
  proof -
    have "\<not> applyRotation_inside size (fst (applyRotation_source ext angle size x y))
              (snd (applyRotation_source ext angle size x y))"
      using that by (simp only: applyRotation_inside_margin [OF sz] simp_thms)
    then have "applyRotation_colour ext angle size scaled x y = None"
      by (simp add: applyRotation_colour_def Let_def)
    then show ?thesis unfolding out by simp
  qed
  have zero: "angle = 0 \<and> RGBAAt (fst (applyRotation ext img rng)) x y =
                RGBAAt (applyRotation_scaled ext img 750) x y"
    if h: "rng 0 = 1 / 2" "math_Cos ext 0 = 1" "math_Sin ext 0 = 0"
      "1 \<le> x" "x \<le> 748" "1 \<le> y" "y \<le> 748"
  proof -
    have a: "angle = 0" by (simp add: angle_def h(1) applyRotation_angle_half)
    have s: "size = 750" by (simp add: size_def a applyRotation_scaledSize_zero h(2,3))
    have "applyRotation_colour ext angle size scaled x y = Some (Color_RGBA (RGBAAt scaled x y))"
      unfolding a s using h by (intro applyRotation_colour_zero) simp_all
    moreover have "Point_In x y (image_Rect 0 0 750 750)"
      using h by (simp add: Point_In_def image_Rect_def)
    ultimately show ?thesis
      unfolding out using a by (simp add: scaled_def s)
  qed
  show ?thesis
    using margin zero unfolding angle_def [symmetric] size_def [symmetric] by blast
qed

theorem applyRotation_margin_and_zero_angle_witness:
  "Rect (uniform_image (image_Rect 0 0 750 750) (RGBA 1 2 3 255)) = image_Rect 0 0 750 750 \<and>
   constant_source (1 / 2) 0 = 1 / 2 \<and>
   math_Cos example_externals 0 = 1 \<and> math_Sin example_externals 0 = 0 \<and>
   RGBAAt (fst (applyRotation example_externals
      (uniform_image (image_Rect 0 0 750 750) (RGBA 1 2 3 255)) (constant_source (1 / 2)))) 375 375
     = RGBA 1 2 3 255 \<and>
   RGBAAt (fst (applyRotation example_externals
      (uniform_image (image_Rect 0 0 750 750) (RGBA 1 2 3 255)) (constant_source (1 / 2)))) 0 0
     = RGBA 0 0 0 0"
proof -
  let ?img = "uniform_image (image_Rect 0 0 750 750) (RGBA 1 2 3 255)"
  let ?rng = "constant_source (1 / 2)"
  have r: "Rect ?img = image_Rect 0 0 750 750" by (simp add: uniform_image_def)
  have u: "?rng 0 = 1 / 2" by (simp add: constant_source_def)
  have t: "math_Cos example_externals 0 = 1" "math_Sin example_externals 0 = 0"
    by (simp_all add: example_externals_def)
  have a: "applyRotation_angle (?rng 0) = 0"
    by (simp only: u applyRotation_angle_half)
  have s: "applyRotation_scaledSize example_externals 0 = 750"
    using t by (rule applyRotation_scaledSize_zero)
  have src: "applyRotation_source example_externals 0 750 0 0 = (0, 0)"
    using applyRotation_source_zero [OF t, of 0 0] by simp
  have sc: "RGBAAt (applyRotation_scaled example_externals ?img 750) 375 375 = RGBA 1 2 3 255"
    by (simp add: applyRotation_scaled_def example_externals_def copy_Scale_def Let_def
        uniform_image_def NewRGBA_def RGBAAt_def image_Rect_def Point_In_def)
  note thm1 = applyRotation_margin_and_zero_angle [OF r, of example_externals ?rng 375 375]
  note thm2 = applyRotation_margin_and_zero_angle [OF r, of example_externals ?rng 0 0]
  have c1: "RGBAAt (fst (applyRotation example_externals ?img ?rng)) 375 375 = RGBA 1 2 3 255"
    using thm1 u t sc by simp
  have c2: "RGBAAt (fst (applyRotation example_externals ?img ?rng)) 0 0 = RGBA 0 0 0 0"
    using thm2 unfolding a s src by (simp add: int_of_float64_def)
  show ?thesis using r u t c1 c2 by simp
qed

section \<open>Drawing one image onto another\<close>

text \<open>
  \<^verbatim>\<open>draw.Draw(dst, r, src, sp, op)\<close> of the standard library: the rectangle is clipped
  to the destination and to the source, and the destination pixel \<open>(x, y)\<close> receives the
  source pixel at \<open>sp + ((x, y) - r.Min)\<close>, copied (\<open>Src\<close>) or composited over what is
  there (\<open>Over\<close>).  The source and the destination of every call in the program are
  different buffers.
\<close>

datatype Op = Over | Src

definition drawCopyOver_pixel :: "RGBA \<Rightarrow> RGBA \<Rightarrow> RGBA" where
  "drawCopyOver_pixel s d =
     (let m = (0xffff :: uint32);
          sr = ucast (R s) * 0x101;
          sg = ucast (G s) * 0x101;
          sb = ucast (B s) * 0x101;
          sa = ucast (A s) * 0x101;
          a = (m - sa) * 0x101
      in RGBA (ucast (drop_bit 8 (ucast (R d) * a div m + sr)))
              (ucast (drop_bit 8 (ucast (G d) * a div m + sg)))
              (ucast (drop_bit 8 (ucast (B d) * a div m + sb)))
              (ucast (drop_bit 8 (ucast (A d) * a div m + sa))))"

definition draw_Draw :: "image \<Rightarrow> Rectangle \<Rightarrow> image \<Rightarrow> int \<times> int \<Rightarrow> Op \<Rightarrow> image" where
  "draw_Draw dst r src sp op =
     (let orig = (Min_X r, Min_Y r);
          r = Intersect r (Rect dst);
          r = Intersect r (Rectangle_Add (Rect src) (fst orig - fst sp, snd orig - snd sp))
      in if Empty r then dst
         else dst\<lparr>Pix := (\<lambda>(x, y).
                if Point_In x y r
                then (let s = Pix src (x - fst orig + fst sp, y - snd orig + snd sp)
                      in case op of Src \<Rightarrow> s | Over \<Rightarrow> drawCopyOver_pixel s (Pix dst (x, y)))
                else Pix dst (x, y))\<rparr>)"

lemma draw_Draw_Rect: "Rect (draw_Draw dst r src sp op) = Rect dst"
  by (simp add: draw_Draw_def Let_def)

lemma Point_In_Intersect:
  "Point_In x y (Intersect r s) \<Longrightarrow> Point_In x y r \<and> Point_In x y s"
  by (auto simp: Intersect_def Let_def Point_In_def Empty_def split: if_splits)

lemma Intersect_self: "\<not> Empty r \<Longrightarrow> Intersect r r = r"
  by (cases r) (simp add: Intersect_def Let_def Empty_def)

lemma draw_Draw_outside:
  "\<not> Point_In x y r \<Longrightarrow> Pix (draw_Draw dst r src sp op) (x, y) = Pix dst (x, y)"
  by (auto simp: draw_Draw_def Let_def dest: Point_In_Intersect)

section \<open>Scale and crop\<close>

text \<open>
  \<^verbatim>\<open>scaleAndCrop\<close>.  The quotients by the width and the height are those of Go
  only for an input of positive width and height.
\<close>

text \<open>Go's integer division truncates towards zero.\<close>

definition go_div :: "int \<Rightarrow> int \<Rightarrow> int" where
  "go_div a b = (if (a < 0) = (b < 0) then \<bar>a\<bar> div \<bar>b\<bar> else - (\<bar>a\<bar> div \<bar>b\<bar>))"

definition scaleAndCrop :: "externals \<Rightarrow> image \<Rightarrow> image" where
  "scaleAndCrop ext albumArt =
     (let bounds = Rect albumArt;
          width = Dx bounds;
          height = Dy bounds;
          scale = max (div64 (float64 (of_int targetWidth)) (float64 (of_int width)))
                      (div64 (float64 (of_int targetHeight)) (float64 (of_int height)));
          scaledWidth = int_of_float64 (mul64 (float64 (of_int width)) scale);
          scaledHeight = int_of_float64 (mul64 (float64 (of_int height)) scale);
          scaled = NewRGBA (image_Rect 0 0 scaledWidth scaledHeight);
          scaled = BiLinear_Scale ext scaled (Rect scaled) albumArt (Rect albumArt);
          cropX = go_div (scaledWidth - targetWidth) 2;
          cropY = go_div (scaledHeight - targetHeight) 2;
          output = NewRGBA (image_Rect 0 0 targetWidth targetHeight);
          output = draw_Draw output (Rect output) scaled (cropX, cropY) Src
      in output)"

lemma scaleAndCrop_Rect: "Rect (scaleAndCrop ext albumArt) = image_Rect 0 0 750 750"
  by (simp add: scaleAndCrop_def Let_def draw_Draw_Rect NewRGBA_def)

section \<open>The pipeline\<close>

text \<open>
  \<^verbatim>\<open>Process\<close> returns the image or the error, and the state of the random source
  after its draws.
\<close>

record Options =
  ColourCorrection :: bool
  RoundedCorners :: bool
  EdgeSoftening :: bool
  RandomOffset :: bool
  RandomRotation :: bool
  Reflection :: bool
  Force :: bool

text \<open>
  The errors of the package: the sentinel of \<^verbatim>\<open>Process\<close>, the two "unsupported
  format" errors of \<^verbatim>\<open>loadImage\<close> and \<^verbatim>\<open>saveImage\<close> with the extension they
  report, and the errors passed on from \<^verbatim>\<open>os.Open\<close>, \<^verbatim>\<open>os.Create\<close> and the
  image codecs.
\<close>

datatype error =
  ErrAlreadyProcessed
  | UnsupportedImageFormat string
  | UnsupportedOutputFormat string
  | OpenError
  | CreateError
  | CodecError

text \<open>The effect stages of \<^verbatim>\<open>Process\<close>, in their fixed order (lines 85 to 99).\<close>

definition applyEffects ::
  "externals \<Rightarrow> Options \<Rightarrow> image \<Rightarrow> rand_source \<Rightarrow> image \<times> rand_source" where
  "applyEffects ext opts output rng =
     (let output = (if ColourCorrection opts then applyColourCorrection output else output);
          output = (if EdgeSoftening opts then applyEdgeSoftening output else output);
          (output, rng) = (if RoundedCorners opts then applyRoundedCorners output rng
                           else (output, rng));
          output = (if Reflection opts then applyReflection output else output);
          (output, rng) = (if RandomRotation opts then applyRotation ext output rng
                           else (output, rng))
      in (output, rng))"

text \<open>The position of the album art in the frame (lines 101 to 106).\<close>

definition finalOffset :: "Options \<Rightarrow> rand_source \<Rightarrow> (int \<times> int) \<times> rand_source" where
  "finalOffset opts rng =
     (let finalX = frameOffsetX;
          finalY = frameOffsetY
      in if RandomOffset opts then
           (let (u, rng) = rand_Float64 rng;
                finalX = finalX + (int_of_float64 (mul64 u 17) - 8);
                (u, rng) = rand_Float64 rng;
                finalY = finalY + (int_of_float64 (mul64 u 11) - 5)
            in ((finalX, finalY), rng))
         else ((finalX, finalY), rng))"

definition Process ::
  "externals \<Rightarrow> image \<Rightarrow> Options \<Rightarrow> rand_source \<Rightarrow> (error + image) \<times> rand_source" where
  "Process ext albumArt opts rng =
     (if \<not> Force opts \<and>
         (let bounds = Rect albumArt; frameBounds = Rect (frame ext)
          in Dx bounds = Dx frameBounds \<and> Dy bounds = Dy frameBounds)
      then (Inl ErrAlreadyProcessed, rng)
      else
        (let output = scaleAndCrop ext albumArt;
             (output, rng) = applyEffects ext opts output rng;
             ((finalX, finalY), rng) = finalOffset opts rng;
             result = NewRGBA (Rect (frame ext));
             result = draw_Draw result (Rect result) (frame ext) (0, 0) Src;
             result = draw_Draw result
                        (image_Rect finalX finalY (finalX + targetWidth) (finalY + targetHeight))
                        output (0, 0) Over
         in (Inr result, rng)))"

lemma applyEffects_Rect: "Rect (fst (applyEffects ext opts output rng)) = Rect output"
  by (simp add: applyEffects_def Let_def split_def applyColourCorrection_Rect
      applyEdgeSoftening_Rect applyRoundedCorners_Rect applyReflection_Rect applyRotation_Rect)

text \<open>
  C2.  For an input of positive width and height, \<^verbatim>\<open>scaleAndCrop\<close> returns a buffer
  with bounds \<open>(0, 0)-(750, 750)\<close>; each of the five effect stages returns a buffer with
  the bounds of its input; so the buffer that leaves the effect chain of \<^verbatim>\<open>Process\<close>,
  whatever the options, is 750 by 750.
\<close>

theorem stages_keep_dimensions:
  assumes "0 < Dx (Rect albumArt)" "0 < Dy (Rect albumArt)"
  shows "Rect (scaleAndCrop ext albumArt) = \<lparr>Min_X = 0, Min_Y = 0, Max_X = 750, Max_Y = 750\<rparr> \<and>
         Dx (Rect (scaleAndCrop ext albumArt)) = 750 \<and>
         Dy (Rect (scaleAndCrop ext albumArt)) = 750 \<and>
         Rect (applyColourCorrection img) = Rect img \<and>
         Rect (applyEdgeSoftening img) = Rect img \<and>
         Rect (fst (applyRoundedCorners img rng)) = Rect img \<and>
         Rect (applyReflection img) = Rect img \<and>
         Rect (fst (applyRotation ext img rng)) = Rect img \<and>
         Rect (fst (applyEffects ext opts (scaleAndCrop ext albumArt) rng))
           = \<lparr>Min_X = 0, Min_Y = 0, Max_X = 750, Max_Y = 750\<rparr>"
  by (simp add: scaleAndCrop_Rect applyEffects_Rect applyColourCorrection_Rect
      applyEdgeSoftening_Rect applyRoundedCorners_Rect applyReflection_Rect applyRotation_Rect
      image_Rect_def Dx_def Dy_def)

theorem stages_keep_dimensions_witness:
  "0 < Dx (Rect (uniform_image (image_Rect 0 0 1000 500) (RGBA 200 10 10 255))) \<and>
   0 < Dy (Rect (uniform_image (image_Rect 0 0 1000 500) (RGBA 200 10 10 255))) \<and>
   Dx (Rect (scaleAndCrop example_externals
      (uniform_image (image_Rect 0 0 1000 500) (RGBA 200 10 10 255)))) = 750 \<and>
   Dy (Rect (scaleAndCrop example_externals
      (uniform_image (image_Rect 0 0 1000 500) (RGBA 200 10 10 255)))) = 750"
proof -
  let ?art = "uniform_image (image_Rect 0 0 1000 500) (RGBA 200 10 10 255)"
  have h: "0 < Dx (Rect ?art)" "0 < Dy (Rect ?art)"
    by (simp_all add: uniform_image_def image_Rect_def Dx_def Dy_def)
  show ?thesis
    using h stages_keep_dimensions [OF h, of example_externals] by (simp add: Dx_def Dy_def)
qed

text \<open>
  C10.  With rounded corners, random rotation and random offset switched off, and for an
  input of positive width and height, \<^verbatim>\<open>Process\<close> never consults the random
  source: it returns the same result for any two states of the source and leaves the state
  as it found it.
\<close>

theorem Process_deterministic_without_random_effects:
  assumes "\<not> RoundedCorners opts" "\<not> RandomRotation opts" "\<not> RandomOffset opts"
    and "0 < Dx (Rect albumArt)" "0 < Dy (Rect albumArt)"
  shows "fst (Process ext albumArt opts rng) = fst (Process ext albumArt opts rng') \<and>
         snd (Process ext albumArt opts rng) = rng"
  using assms by (simp add: Process_def applyEffects_def finalOffset_def Let_def split_def)

definition example_Options :: Options where
  "example_Options =
     \<lparr>ColourCorrection = True, RoundedCorners = False, EdgeSoftening = True,
      RandomOffset = False, RandomRotation = False, Reflection = True, Force = False\<rparr>"

theorem Process_deterministic_without_random_effects_witness:
  "\<not> RoundedCorners example_Options \<and> \<not> RandomRotation example_Options \<and>
   \<not> RandomOffset example_Options \<and>
   0 < Dx (Rect (uniform_image (image_Rect 0 0 1000 500) (RGBA 200 10 10 255))) \<and>
   0 < Dy (Rect (uniform_image (image_Rect 0 0 1000 500) (RGBA 200 10 10 255))) \<and>
   fst (Process example_externals (uniform_image (image_Rect 0 0 1000 500) (RGBA 200 10 10 255))
          example_Options (constant_source (1 / 4)))
     = fst (Process example_externals (uniform_image (image_Rect 0 0 1000 500) (RGBA 200 10 10 255))
          example_Options (constant_source (3 / 4))) \<and>
   snd (Process example_externals (uniform_image (image_Rect 0 0 1000 500) (RGBA 200 10 10 255))
          example_Options (constant_source (1 / 4))) = constant_source (1 / 4)"
proof -
  have h: "\<not> RoundedCorners example_Options" "\<not> RandomRotation example_Options"
    "\<not> RandomOffset example_Options"
    by (simp_all add: example_Options_def)
  have d: "0 < Dx (Rect (uniform_image (image_Rect 0 0 1000 500) (RGBA 200 10 10 255)))"
    "0 < Dy (Rect (uniform_image (image_Rect 0 0 1000 500) (RGBA 200 10 10 255)))"
    by (simp_all add: uniform_image_def image_Rect_def Dx_def Dy_def)
  show ?thesis
    using h d Process_deterministic_without_random_effects [OF h d, of example_externals
        "constant_source (1 / 4)" "constant_source (3 / 4)"]
    by blast
qed

text \<open>
  C1.  For an input of positive width and height.  With \<open>Force\<close> off, \<^verbatim>\<open>Process\<close>
  returns \<^verbatim>\<open>ErrAlreadyProcessed\<close> exactly when the width and the height of the input
  equal those of the frame, and then it returns no image and has drawn nothing from the
  random source.  With \<open>Force\<close> on it never returns that error, whatever the dimensions:
  it returns the frame-sized canvas on which the scaled, cropped and processed album art
  is composited at the computed offset.
\<close>

theorem Process_already_processed_guard:
  assumes "0 < Dx (Rect albumArt)" "0 < Dy (Rect albumArt)"
  shows "(\<not> Force opts \<longrightarrow>
            ((fst (Process ext albumArt opts rng) = Inl ErrAlreadyProcessed) =
               (Dx (Rect albumArt) = Dx (Rect (frame ext)) \<and>
                Dy (Rect albumArt) = Dy (Rect (frame ext)))) \<and>
            (Dx (Rect albumArt) = Dx (Rect (frame ext)) \<and>
             Dy (Rect albumArt) = Dy (Rect (frame ext))
               \<longrightarrow> Process ext albumArt opts rng = (Inl ErrAlreadyProcessed, rng))) \<and>
         (Force opts \<longrightarrow>
            Process ext albumArt opts rng =
              (Inr (draw_Draw
                      (draw_Draw (NewRGBA (Rect (frame ext))) (Rect (frame ext)) (frame ext)
                         (0, 0) Src)
                      (image_Rect
                         (fst (fst (finalOffset opts
                            (snd (applyEffects ext opts (scaleAndCrop ext albumArt) rng)))))
                         (snd (fst (finalOffset opts
                            (snd (applyEffects ext opts (scaleAndCrop ext albumArt) rng)))))
                         (fst (fst (finalOffset opts
                            (snd (applyEffects ext opts (scaleAndCrop ext albumArt) rng))))
                          + targetWidth)
                         (snd (fst (finalOffset opts
                            (snd (applyEffects ext opts (scaleAndCrop ext albumArt) rng))))
                          + targetHeight))
                      (fst (applyEffects ext opts (scaleAndCrop ext albumArt) rng))
                      (0, 0) Over),
               snd (finalOffset opts
                      (snd (applyEffects ext opts (scaleAndCrop ext albumArt) rng))))) \<and>
         (\<not> (Dx (Rect albumArt) = Dx (Rect (frame ext)) \<and>
             Dy (Rect albumArt) = Dy (Rect (frame ext)))
            \<longrightarrow> Process ext albumArt (opts\<lparr>Force := True\<rparr>) rng =
                Process ext albumArt (opts\<lparr>Force := False\<rparr>) rng)"
  by (simp add: Process_def Let_def split_def draw_Draw_Rect NewRGBA_def applyEffects_def
      finalOffset_def)

theorem Process_already_processed_guard_witness:
  "0 < Dx (Rect (uniform_image (image_Rect 0 0 884 777) (RGBA 200 10 10 255))) \<and>
   0 < Dy (Rect (uniform_image (image_Rect 0 0 884 777) (RGBA 200 10 10 255))) \<and>
   \<not> Force example_Options \<and> Force (example_Options\<lparr>Force := True\<rparr>) \<and>
   Dx (Rect (uniform_image (image_Rect 0 0 884 777) (RGBA 200 10 10 255)))
     = Dx (Rect (frame example_externals)) \<and>
   Dy (Rect (uniform_image (image_Rect 0 0 884 777) (RGBA 200 10 10 255)))
     = Dy (Rect (frame example_externals)) \<and>
   Process example_externals (uniform_image (image_Rect 0 0 884 777) (RGBA 200 10 10 255))
     example_Options (constant_source (1 / 4)) = (Inl ErrAlreadyProcessed, constant_source (1 / 4)) \<and>
   fst (Process example_externals (uniform_image (image_Rect 0 0 884 777) (RGBA 200 10 10 255))
     (example_Options\<lparr>Force := True\<rparr>) (constant_source (1 / 4))) \<noteq> Inl ErrAlreadyProcessed \<and>
   0 < Dx (Rect (uniform_image (image_Rect 0 0 1000 500) (RGBA 200 10 10 255))) \<and>
   0 < Dy (Rect (uniform_image (image_Rect 0 0 1000 500) (RGBA 200 10 10 255))) \<and>
   Dx (Rect (uniform_image (image_Rect 0 0 1000 500) (RGBA 200 10 10 255)))
     \<noteq> Dx (Rect (frame example_externals)) \<and>
   fst (Process example_externals (uniform_image (image_Rect 0 0 1000 500) (RGBA 200 10 10 255))
     example_Options (constant_source (1 / 4))) \<noteq> Inl ErrAlreadyProcessed"
proof -
  let ?old = "uniform_image (image_Rect 0 0 884 777) (RGBA 200 10 10 255)"
  let ?new = "uniform_image (image_Rect 0 0 1000 500) (RGBA 200 10 10 255)"
  let ?rng = "constant_source (1 / 4)"
  have h: "0 < Dx (Rect ?old)" "0 < Dy (Rect ?old)"
    and k: "0 < Dx (Rect ?new)" "0 < Dy (Rect ?new)"
    by (simp_all add: uniform_image_def image_Rect_def Dx_def Dy_def)
  have f: "\<not> Force example_Options" "Force (example_Options\<lparr>Force := True\<rparr>)"
    by (simp_all add: example_Options_def)
  have d: "Dx (Rect ?old) = Dx (Rect (frame example_externals))"
    "Dy (Rect ?old) = Dy (Rect (frame example_externals))"
    by (simp_all add: uniform_image_def example_externals_def)
  have n: "Dx (Rect ?new) \<noteq> Dx (Rect (frame example_externals))"
    by (simp add: uniform_image_def example_externals_def image_Rect_def Dx_def)
  note unforced = Process_already_processed_guard [OF h, of example_Options example_externals ?rng]
  note forced = Process_already_processed_guard [OF h, of "example_Options\<lparr>Force := True\<rparr>"
      example_externals ?rng]
  note other = Process_already_processed_guard [OF k, of example_Options example_externals ?rng]
  have 1: "Process example_externals ?old example_Options ?rng = (Inl ErrAlreadyProcessed, ?rng)"
    using unforced f(1) d by blast
  have 2: "fst (Process example_externals ?old (example_Options\<lparr>Force := True\<rparr>) ?rng)
             \<noteq> Inl ErrAlreadyProcessed"
    using forced f(2) by (metis fst_conv sum.distinct(1))
  have 3: "fst (Process example_externals ?new example_Options ?rng) \<noteq> Inl ErrAlreadyProcessed"
    using other f(1) n by blast
  show ?thesis using h k f d n 1 2 3 by blast
qed

subsection \<open>The random offset\<close>

lemma float64_below_17: "float64 (17 - 17 / 2 ^ 53) = 17 - 1 / 2 ^ 48"
  by (simp add: float64_eval)

lemma float64_below_11: "float64 (11 - 11 / 2 ^ 53) = 11 - 1 / 2 ^ 49"
  by (simp add: float64_eval)

lemma offset_draw_range:
  assumes "float64 u = u" "0 \<le> u" "u < 1"
  shows "int_of_float64 (mul64 u 17) = \<lfloor>float64 (u * 17)\<rfloor>"
    and "int_of_float64 (mul64 u 11) = \<lfloor>float64 (u * 11)\<rfloor>"
    and "0 \<le> \<lfloor>float64 (u * 17)\<rfloor>" and "\<lfloor>float64 (u * 17)\<rfloor> \<le> 16"
    and "0 \<le> \<lfloor>float64 (u * 11)\<rfloor>" and "\<lfloor>float64 (u * 11)\<rfloor> \<le> 10"
proof -
  have top: "u \<le> 1 - 1 / 2 ^ 53" using assms by (rule float64_below_one)
  have "float64 0 \<le> float64 (u * 17)" using assms(2) by (intro float64_mono) simp
  then have lo17: "0 \<le> float64 (u * 17)" by (simp add: float64_zero)
  have "float64 0 \<le> float64 (u * 11)" using assms(2) by (intro float64_mono) simp
  then have lo11: "0 \<le> float64 (u * 11)" by (simp add: float64_zero)
  have "u * 17 \<le> 17 - 17 / 2 ^ 53" using top by simp
  then have "float64 (u * 17) \<le> float64 (17 - 17 / 2 ^ 53)" by (rule float64_mono)
  then have "float64 (u * 17) < 17" unfolding float64_below_17 by simp
  then show "\<lfloor>float64 (u * 17)\<rfloor> \<le> 16" by (simp add: floor_le_iff)
  have "u * 11 \<le> 11 - 11 / 2 ^ 53" using top by simp
  then have "float64 (u * 11) \<le> float64 (11 - 11 / 2 ^ 53)" by (rule float64_mono)
  then have "float64 (u * 11) < 11" unfolding float64_below_11 by simp
  then show "\<lfloor>float64 (u * 11)\<rfloor> \<le> 10" by (simp add: floor_le_iff)
  show "int_of_float64 (mul64 u 17) = \<lfloor>float64 (u * 17)\<rfloor>"
    using lo17 by (simp add: int_of_float64_def mul64_def)
  show "int_of_float64 (mul64 u 11) = \<lfloor>float64 (u * 11)\<rfloor>"
    using lo11 by (simp add: int_of_float64_def mul64_def)
  show "0 \<le> \<lfloor>float64 (u * 17)\<rfloor>" using lo17 by simp
  show "0 \<le> \<lfloor>float64 (u * 11)\<rfloor>" using lo11 by simp
qed

definition example_random_Options :: Options where
  "example_random_Options =
     \<lparr>ColourCorrection = True, RoundedCorners = True, EdgeSoftening = True,
      RandomOffset = True, RandomRotation = True, Reflection = True, Force = False\<rparr>"

text \<open>
  C5, as stated, fails: the draw \<open>31/32\<close>, a float64 in \<open>[0, 1)\<close>, moves the album art by
  \<open>+8\<close> horizontally and by \<open>+5\<close> vertically, which the half-open intervals exclude.
\<close>

theorem finalOffset_reaches_upper_end:
  "RandomOffset example_random_Options \<and>
   0 \<le> constant_source (31 / 32) 0 \<and> constant_source (31 / 32) 0 < 1 \<and>
   float64 (constant_source (31 / 32) 0) = constant_source (31 / 32) 0 \<and>
   fst (fst (finalOffset example_random_Options (constant_source (31 / 32)))) - frameOffsetX = 8 \<and>
   snd (fst (finalOffset example_random_Options (constant_source (31 / 32)))) - frameOffsetY = 5 \<and>
   \<not> (fst (fst (finalOffset example_random_Options (constant_source (31 / 32)))) - frameOffsetX < 8) \<and>
   \<not> (snd (fst (finalOffset example_random_Options (constant_source (31 / 32)))) - frameOffsetY < 5)"
  by (simp add: finalOffset_def example_random_Options_def constant_source_def rand_Float64_def
      Let_def mul64_def int_of_float64_def float64_eval)

text \<open>
  C5, amended.  With the random offset enabled and the two draws being float64 numbers in
  \<open>[0, 1)\<close>, the offset is \<open>(98 + dx, 13 + dy)\<close> where \<open>dx\<close> is the integer part of the
  float64 product of the first draw and 17, less 8, and \<open>dy\<close> that of the second draw
  and 11, less 5; \<open>dx\<close> lies in \<open>[-8, 8]\<close> and \<open>dy\<close> in \<open>[-5, 5]\<close>, both ends included.
  The stage takes exactly these two draws from the source.
\<close>

theorem finalOffset_closed_ranges:
  assumes "RandomOffset opts"
    and "float64 (rng 0) = rng 0" "0 \<le> rng 0" "rng 0 < 1"
    and "float64 (rng 1) = rng 1" "0 \<le> rng 1" "rng 1 < 1"
  shows "fst (finalOffset opts rng) =
           (frameOffsetX + (\<lfloor>float64 (rng 0 * 17)\<rfloor> - 8),
            frameOffsetY + (\<lfloor>float64 (rng 1 * 11)\<rfloor> - 5)) \<and>
         - 8 \<le> \<lfloor>float64 (rng 0 * 17)\<rfloor> - 8 \<and> \<lfloor>float64 (rng 0 * 17)\<rfloor> - 8 \<le> 8 \<and>
         - 5 \<le> \<lfloor>float64 (rng 1 * 11)\<rfloor> - 5 \<and> \<lfloor>float64 (rng 1 * 11)\<rfloor> - 5 \<le> 5 \<and>
         snd (finalOffset opts rng) = (\<lambda>n. rng (Suc (Suc n)))"
proof -
  note a = offset_draw_range [OF assms(2,3,4)]
  note b = offset_draw_range [OF assms(5,6,7)]
  have "fst (finalOffset opts rng) =
          (frameOffsetX + (int_of_float64 (mul64 (rng 0) 17) - 8),
           frameOffsetY + (int_of_float64 (mul64 (rng 1) 11) - 5))"
    using assms(1) by (simp add: finalOffset_def rand_Float64_def Let_def split_def)
  then have f: "fst (finalOffset opts rng) =
                  (frameOffsetX + (\<lfloor>float64 (rng 0 * 17)\<rfloor> - 8),
                   frameOffsetY + (\<lfloor>float64 (rng 1 * 11)\<rfloor> - 5))"
    unfolding a(1) b(2) .
  have s: "snd (finalOffset opts rng) = (\<lambda>n. rng (Suc (Suc n)))"
    using assms(1) by (simp add: finalOffset_def rand_Float64_def Let_def split_def)
  have "- 8 \<le> \<lfloor>float64 (rng 0 * 17)\<rfloor> - 8" "\<lfloor>float64 (rng 0 * 17)\<rfloor> - 8 \<le> 8"
    "- 5 \<le> \<lfloor>float64 (rng 1 * 11)\<rfloor> - 5" "\<lfloor>float64 (rng 1 * 11)\<rfloor> - 5 \<le> 5"
    using a(3,4) b(5,6) by linarith+
  then show ?thesis using f s by blast
qed

theorem finalOffset_closed_ranges_witness:
  "RandomOffset example_random_Options \<and>
   float64 (constant_source (31 / 32) 0) = constant_source (31 / 32) 0 \<and>
   0 \<le> constant_source (31 / 32) 0 \<and> constant_source (31 / 32) 0 < 1 \<and>
   float64 (constant_source (31 / 32) 1) = constant_source (31 / 32) 1 \<and>
   0 \<le> constant_source (31 / 32) 1 \<and> constant_source (31 / 32) 1 < 1 \<and>
   fst (finalOffset example_random_Options (constant_source (31 / 32))) =
     (frameOffsetX + (\<lfloor>float64 (constant_source (31 / 32) 0 * 17)\<rfloor> - 8),
      frameOffsetY + (\<lfloor>float64 (constant_source (31 / 32) 1 * 11)\<rfloor> - 5)) \<and>
   \<lfloor>float64 (constant_source (31 / 32) 0 * 17)\<rfloor> - 8 \<le> 8"
proof -
  have o: "RandomOffset example_random_Options" by (simp add: example_random_Options_def)
  have u: "float64 (constant_source (31 / 32) n) = constant_source (31 / 32) n"
    "0 \<le> constant_source (31 / 32) n" "constant_source (31 / 32) n < 1" for n
    by (simp_all add: constant_source_def float64_eval)
  show ?thesis
    using o u [of 0] u [of 1]
      finalOffset_closed_ranges [OF o u [of 0] u [of 1]]
    by blast
qed

subsection \<open>The frame as the base layer\<close>

lemma frame_copy_RGBAAt:
  assumes "Min_X (Rect f) = 0" "Min_Y (Rect f) = 0"
  shows "RGBAAt (draw_Draw (NewRGBA (Rect f)) (Rect f) f (0, 0) Src) x y = RGBAAt f x y"
proof (cases "Empty (Rect f)")
  case True
  then have "Intersect (Rect f) (Rect f) = \<lparr>Min_X = 0, Min_Y = 0, Max_X = 0, Max_Y = 0\<rparr>"
    by (simp add: Intersect_def Let_def Empty_def)
  moreover have "\<not> Point_In x y (Rect f)" using True by (auto simp: Empty_def Point_In_def)
  ultimately show ?thesis
    by (simp add: draw_Draw_def Let_def RGBAAt_def NewRGBA_def Empty_def Intersect_def)
next
  case False
  have t: "Rectangle_Add (Rect f) (0, 0) = Rect f"
    by (cases "Rect f") (simp add: Rectangle_Add_def)
  show ?thesis
    using False assms
    by (simp add: draw_Draw_def Let_def Intersect_self t RGBAAt_def NewRGBA_def)
qed

lemma Point_In_Intersect_iff:
  "Point_In x y (Intersect r s) = (Point_In x y r \<and> Point_In x y s)"
  by (auto simp: Intersect_def Let_def Point_In_def Empty_def)

lemma Point_In_not_Empty: "Point_In x y r \<Longrightarrow> \<not> Empty r"
  by (auto simp: Point_In_def Empty_def)

lemma album_art_over_base:
  assumes "Rect art = image_Rect 0 0 targetWidth targetHeight"
    and "Point_In x y (image_Rect fX fY (fX + targetWidth) (fY + targetHeight))"
    and "Point_In x y (Rect base)"
  shows "Pix (draw_Draw base (image_Rect fX fY (fX + targetWidth) (fY + targetHeight)) art
                (0, 0) Over) (x, y)
           = drawCopyOver_pixel (Pix art (x - fX, y - fY)) (Pix base (x, y))"
proof -
  define r where "r = image_Rect fX fY (fX + targetWidth) (fY + targetHeight)"
  have m: "Min_X r = fX" "Min_Y r = fY" by (simp_all add: r_def image_Rect_def)
  have t: "Rectangle_Add (Rect art) (fX - 0, fY - 0) = r"
    by (simp add: assms(1) r_def image_Rect_def Rectangle_Add_def)
  have i: "Point_In x y (Intersect (Intersect r (Rect base)) r)"
    using assms(2,3) by (simp add: Point_In_Intersect_iff r_def)
  show ?thesis
    unfolding r_def [symmetric] draw_Draw_def Let_def m fst_conv snd_conv t
    using i Point_In_not_Empty [OF i] by simp
qed

text \<open>
  C6.  When \<^verbatim>\<open>Process\<close> returns an image, for an input of positive width and
  height and a frame whose bounds start at \<open>(0, 0)\<close> as those of a decoded JPEG do: the
  canvas has the bounds of the frame; outside
  the 750 by 750 rectangle that starts at the computed offset every pixel of the canvas is
  the pixel of the frame at the same place; and inside that rectangle it is the pixel of
  the processed album art composited over the pixel of the frame.
\<close>

theorem Process_frame_outside_album_art:
  assumes "fst (Process ext albumArt opts rng) = Inr result"
    and "Min_X (Rect (frame ext)) = 0" "Min_Y (Rect (frame ext)) = 0"
    and "offset = fst (finalOffset opts (snd (applyEffects ext opts (scaleAndCrop ext albumArt) rng)))"
    and "art = fst (applyEffects ext opts (scaleAndCrop ext albumArt) rng)"
    and "0 < Dx (Rect albumArt)" "0 < Dy (Rect albumArt)"
  shows "Rect result = Rect (frame ext) \<and>
         (\<forall>x y. \<not> Point_In x y
                  (image_Rect (fst offset) (snd offset)
                     (fst offset + targetWidth) (snd offset + targetHeight))
                \<longrightarrow> RGBAAt result x y = RGBAAt (frame ext) x y) \<and>
         (\<forall>x y. Point_In x y
                  (image_Rect (fst offset) (snd offset)
                     (fst offset + targetWidth) (snd offset + targetHeight)) \<and>
                Point_In x y (Rect (frame ext))
                \<longrightarrow> RGBAAt result x y =
                      drawCopyOver_pixel (RGBAAt art (x - fst offset) (y - snd offset))
                        (RGBAAt (frame ext) x y))"
proof -
  define base where
    "base = draw_Draw (NewRGBA (Rect (frame ext))) (Rect (frame ext)) (frame ext) (0, 0) Src"
  define r where
    "r = image_Rect (fst offset) (snd offset) (fst offset + targetWidth) (snd offset + targetHeight)"
  have guard: "\<not> (\<not> Force opts \<and> Dx (Rect albumArt) = Dx (Rect (frame ext)) \<and>
                  Dy (Rect albumArt) = Dy (Rect (frame ext)))"
    using assms(1) by (auto simp: Process_def Let_def)
  have res: "result = draw_Draw base r art (0, 0) Over"
    using assms(1) guard
    by (simp add: Process_def Let_def split_def assms(5) base_def r_def assms(4) NewRGBA_def)
  have rb: "Rect base = Rect (frame ext)"
    unfolding base_def by (simp add: draw_Draw_Rect NewRGBA_def)
  have rect: "Rect result = Rect (frame ext)"
    unfolding res by (simp add: draw_Draw_Rect rb)
  have ra: "Rect art = image_Rect 0 0 targetWidth targetHeight"
    unfolding assms(5) by (simp add: applyEffects_Rect scaleAndCrop_Rect)
  have fb: "RGBAAt base x y = RGBAAt (frame ext) x y" for x y
    unfolding base_def by (simp only: frame_copy_RGBAAt [OF assms(2,3)])
  have outside: "RGBAAt result x y = RGBAAt (frame ext) x y" if "\<not> Point_In x y r" for x y
  proof -
    have "Pix result (x, y) = Pix base (x, y)"
      unfolding res using that by (rule draw_Draw_outside)
    then have "RGBAAt result x y = RGBAAt base x y" by (simp add: RGBAAt_def rect rb)
    then show ?thesis by (simp only: fb)
  qed
  have inside: "RGBAAt result x y =
                  drawCopyOver_pixel (RGBAAt art (x - fst offset) (y - snd offset))
                    (RGBAAt (frame ext) x y)"
    if "Point_In x y r" "Point_In x y (Rect (frame ext))" for x y
  proof -
    have "Pix result (x, y) =
            drawCopyOver_pixel (Pix art (x - fst offset, y - snd offset)) (Pix base (x, y))"
      unfolding res r_def using ra that unfolding r_def rb [symmetric]
      by (rule album_art_over_base)
    moreover have "Point_In (x - fst offset) (y - snd offset) (Rect art)"
      using that(1) by (simp add: ra r_def Point_In_def image_Rect_def)
    moreover have "Pix base (x, y) = RGBAAt (frame ext) x y"
      using fb [of x y] that(2) by (simp add: RGBAAt_def rb)
    ultimately show ?thesis using that(2) by (simp add: RGBAAt_def rect)
  qed
  show ?thesis using rect outside inside unfolding r_def by blast
qed

theorem Process_frame_outside_album_art_witness:
  "Min_X (Rect (frame example_externals)) = 0 \<and> Min_Y (Rect (frame example_externals)) = 0 \<and>
   0 < Dx (Rect (uniform_image (image_Rect 0 0 1000 500) (RGBA 200 10 10 255))) \<and>
   0 < Dy (Rect (uniform_image (image_Rect 0 0 1000 500) (RGBA 200 10 10 255))) \<and>
   (case fst (Process example_externals
               (uniform_image (image_Rect 0 0 1000 500) (RGBA 200 10 10 255))
               example_Options (constant_source (1 / 4))) of
      Inl e \<Rightarrow> False
    | Inr result \<Rightarrow>
        Rect result = \<lparr>Min_X = 0, Min_Y = 0, Max_X = 884, Max_Y = 777\<rparr> \<and>
        RGBAAt result 5 5 = RGBA 40 40 40 255 \<and>
        RGBAAt result 100 100 =
          drawCopyOver_pixel
            (RGBAAt (fst (applyEffects example_externals example_Options
                       (scaleAndCrop example_externals
                          (uniform_image (image_Rect 0 0 1000 500) (RGBA 200 10 10 255)))
                       (constant_source (1 / 4)))) 2 87)
            (RGBA 40 40 40 255))"
proof -
  let ?art = "uniform_image (image_Rect 0 0 1000 500) (RGBA 200 10 10 255)"
  let ?rng = "constant_source (1 / 4)"
  have m: "Min_X (Rect (frame example_externals)) = 0" "Min_Y (Rect (frame example_externals)) = 0"
    by (simp_all add: example_externals_def uniform_image_def image_Rect_def)
  have fr: "Rect (frame example_externals) = \<lparr>Min_X = 0, Min_Y = 0, Max_X = 884, Max_Y = 777\<rparr>"
    by (simp add: example_externals_def uniform_image_def image_Rect_def)
  have fp: "RGBAAt (frame example_externals) x y = RGBA 40 40 40 255"
    if "Point_In x y \<lparr>Min_X = 0, Min_Y = 0, Max_X = 884, Max_Y = 777\<rparr>" for x y
    using that by (simp add: RGBAAt_def fr) (simp add: example_externals_def uniform_image_def)
  have "\<not> (\<not> Force example_Options \<and> Dx (Rect ?art) = Dx (Rect (frame example_externals)) \<and>
            Dy (Rect ?art) = Dy (Rect (frame example_externals)))"
    by (simp add: fr uniform_image_def image_Rect_def Dx_def)
  then obtain result where res: "fst (Process example_externals ?art example_Options ?rng) = Inr result"
    by (simp add: Process_def Let_def split_def)
  have off: "fst (finalOffset example_Options
                (snd (applyEffects example_externals example_Options
                        (scaleAndCrop example_externals ?art) ?rng))) = (98, 13)"
    by (simp add: finalOffset_def example_Options_def)
  have out: "\<not> Point_In 5 5 (image_Rect (fst (98 :: int, 13 :: int)) (snd (98 :: int, 13 :: int))
                (fst (98 :: int, 13 :: int) + targetWidth) (snd (98 :: int, 13 :: int) + targetHeight))"
    and ins: "Point_In 100 100 (image_Rect (fst (98 :: int, 13 :: int)) (snd (98 :: int, 13 :: int))
                (fst (98 :: int, 13 :: int) + targetWidth) (snd (98 :: int, 13 :: int) + targetHeight))"
    and inf: "Point_In 100 100 (Rect (frame example_externals))"
    by (simp_all add: Point_In_def image_Rect_def fr)
  have d: "0 < Dx (Rect ?art)" "0 < Dy (Rect ?art)"
    by (simp_all add: uniform_image_def image_Rect_def Dx_def Dy_def)
  from Process_frame_outside_album_art [OF res m off [symmetric] refl d] out ins inf
  have "Rect result = Rect (frame example_externals)"
    and "RGBAAt result 5 5 = RGBAAt (frame example_externals) 5 5"
    and "RGBAAt result 100 100 =
           drawCopyOver_pixel
             (RGBAAt (fst (applyEffects example_externals example_Options
                        (scaleAndCrop example_externals ?art) ?rng))
                (100 - fst (98 :: int, 13 :: int)) (100 - snd (98 :: int, 13 :: int)))
             (RGBAAt (frame example_externals) 100 100)"
    by blast+
  then show ?thesis using m d by (simp add: res fr fp Point_In_def)
qed

section \<open>Files\<close>

text \<open>
  The file system is the content of each existing file together with the paths at which
  \<^verbatim>\<open>os.Create\<close> succeeds.  \<^verbatim>\<open>os.Open\<close> succeeds on the existing files.  The JPEG
  and PNG codecs are not part of the repository: a decoder is a function of the bytes of
  the file, an encoder returns the bytes it has written and the error it reports, if any.
\<close>

record file_system =
  files :: "string \<rightharpoonup> uint8 list"
  creatable :: "string \<Rightarrow> bool"

record codecs =
  jpeg_Decode :: "uint8 list \<Rightarrow> error + image"
  png_Decode :: "uint8 list \<Rightarrow> error + image"
  jpeg_Encode :: "image \<Rightarrow> uint8 list \<times> error option"
  png_Encode :: "image \<Rightarrow> uint8 list \<times> error option"

text \<open>
  \<^verbatim>\<open>filepath.Ext\<close>: the suffix that starts at the last dot of the last element of
  the path (the separator is \<open>/\<close>), empty when there is none.  The scan runs from the end
  of the path.
\<close>

fun Ext_scan :: "string \<Rightarrow> string \<Rightarrow> string" where
  "Ext_scan [] suffix = ''''"
| "Ext_scan (c # before) suffix =
     (if c = CHR ''/'' then ''''
      else if c = CHR ''.'' then c # suffix
      else Ext_scan before (c # suffix))"

definition filepath_Ext :: "string \<Rightarrow> string" where
  "filepath_Ext path = Ext_scan (rev path) []"

text \<open>
  \<^verbatim>\<open>strings.ToLower\<close> on the ASCII letters.  No character outside ASCII has a
  lower-case form among the letters of \<open>.jpg\<close>, \<open>.jpeg\<close> and \<open>.png\<close>, so the tests on
  the extension are those of the program.
\<close>

definition ToLower_char :: "char \<Rightarrow> char" where
  "ToLower_char c =
     (case map_of (zip ''ABCDEFGHIJKLMNOPQRSTUVWXYZ'' ''abcdefghijklmnopqrstuvwxyz'') c of
        Some l \<Rightarrow> l
      | None \<Rightarrow> c)"

definition strings_ToLower :: "string \<Rightarrow> string" where
  "strings_ToLower s = map ToLower_char s"

definition loadImage :: "codecs \<Rightarrow> file_system \<Rightarrow> string \<Rightarrow> error + image" where
  "loadImage cd fs inputPath =
     (case files fs inputPath of
        None \<Rightarrow> Inl OpenError
      | Some inputFile \<Rightarrow>
          (let ext = strings_ToLower (filepath_Ext inputPath)
           in if ext = ''.jpg'' \<or> ext = ''.jpeg'' then jpeg_Decode cd inputFile
              else if ext = ''.png'' then png_Decode cd inputFile
              else Inl (UnsupportedImageFormat ext)))"

definition saveImage ::
  "codecs \<Rightarrow> file_system \<Rightarrow> image \<Rightarrow> string \<Rightarrow> error option \<times> file_system" where
  "saveImage cd fs img outputPath =
     (if \<not> creatable fs outputPath then (Some CreateError, fs)
      else
        (let fs = fs\<lparr>files := (files fs)(outputPath \<mapsto> [])\<rparr>;
             ext = strings_ToLower (filepath_Ext outputPath)
         in if ext = ''.jpg'' \<or> ext = ''.jpeg'' then
              (let (written, err) = jpeg_Encode cd img
               in (err, fs\<lparr>files := (files fs)(outputPath \<mapsto> written)\<rparr>))
            else if ext = ''.png'' then
              (let (written, err) = png_Encode cd img
               in (err, fs\<lparr>files := (files fs)(outputPath \<mapsto> written)\<rparr>))
            else (Some (UnsupportedOutputFormat ext), fs)))"

definition ProcessFile ::
  "externals \<Rightarrow> codecs \<Rightarrow> file_system \<Rightarrow> string \<Rightarrow> string \<Rightarrow> Options \<Rightarrow> rand_source
     \<Rightarrow> error option \<times> file_system \<times> rand_source" where
  "ProcessFile ext cd fs inputPath outputPath opts rng =
     (case loadImage cd fs inputPath of
        Inl err \<Rightarrow> (Some err, fs, rng)
      | Inr img \<Rightarrow>
          (case Process ext img opts rng of
             (Inl err, rng) \<Rightarrow> (Some err, fs, rng)
           | (Inr result, rng) \<Rightarrow>
               (let (err, fs) = saveImage cd fs result outputPath in (err, fs, rng))))"

text \<open>The extensions the package supports, and the errors that report any other.\<close>

definition supported :: "string \<Rightarrow> bool" where
  "supported path =
     (strings_ToLower (filepath_Ext path) \<in> {''.jpg'', ''.jpeg'', ''.png''})"

fun is_UnsupportedFormat :: "error \<Rightarrow> bool" where
  "is_UnsupportedFormat (UnsupportedImageFormat e) = True"
| "is_UnsupportedFormat (UnsupportedOutputFormat e) = True"
| "is_UnsupportedFormat e = False"

lemma saveImage_creates_before_checking:
  assumes "creatable fs outputPath" "\<not> supported outputPath"
  shows "saveImage cd fs img outputPath =
           (Some (UnsupportedOutputFormat (strings_ToLower (filepath_Ext outputPath))),
            fs\<lparr>files := (files fs)(outputPath \<mapsto> [])\<rparr>)"
  using assms by (simp add: saveImage_def supported_def Let_def)

definition example_codecs :: codecs where
  "example_codecs =
     \<lparr>jpeg_Decode = (\<lambda>bytes. Inl CodecError),
      png_Decode = (\<lambda>bytes. Inr (uniform_image (image_Rect 0 0 884 777) (RGBA 1 2 3 255))),
      jpeg_Encode = (\<lambda>img. ([255, 216], None)),
      png_Encode = (\<lambda>img. ([137, 80], None))\<rparr>"

definition example_file_system :: file_system where
  "example_file_system =
     \<lparr>files = [''in.png'' \<mapsto> [137, 80], ''cover.bmp'' \<mapsto> [66, 77]],
      creatable = (\<lambda>path. True)\<rparr>"

text \<open>
  C9, as stated, fails.  The input \<open>in.png\<close> decodes to an image that has the size of
  the frame, the output path \<open>out.bmp\<close> has an unsupported extension, and
  \<^verbatim>\<open>ProcessFile\<close> returns \<^verbatim>\<open>ErrAlreadyProcessed\<close>, which is not an unsupported
  format error: \<^verbatim>\<open>Process\<close> runs before the output path is looked at.
\<close>

theorem ProcessFile_unsupported_output_unreported:
  "\<not> supported ''out.bmp'' \<and>
   ProcessFile example_externals example_codecs example_file_system ''in.png'' ''out.bmp''
     example_Options (constant_source (1 / 4))
     = (Some ErrAlreadyProcessed, example_file_system, constant_source (1 / 4)) \<and>
   \<not> is_UnsupportedFormat ErrAlreadyProcessed"
  by (simp add: supported_def filepath_Ext_def strings_ToLower_def ToLower_char_def
      ProcessFile_def loadImage_def example_file_system_def example_codecs_def Process_def
      example_Options_def example_externals_def uniform_image_def Let_def)

text \<open>
  The same call with \<open>Force\<close> on reaches \<^verbatim>\<open>saveImage\<close>, which creates the output file
  before it looks at the extension: the unsupported format is reported, and an empty
  \<open>out.bmp\<close> is left behind.
\<close>

lemma ProcessFile_leaves_empty_file:
  "fst (ProcessFile example_externals example_codecs example_file_system ''in.png'' ''out.bmp''
     (example_Options\<lparr>Force := True\<rparr>) (constant_source (1 / 4)))
     = Some (UnsupportedOutputFormat ''.bmp'') \<and>
   files example_file_system ''out.bmp'' = None \<and>
   files (fst (snd (ProcessFile example_externals example_codecs example_file_system ''in.png''
     ''out.bmp'' (example_Options\<lparr>Force := True\<rparr>) (constant_source (1 / 4))))) ''out.bmp''
     = Some []"
proof -
  have l: "loadImage example_codecs example_file_system ''in.png''
             = Inr (uniform_image (image_Rect 0 0 884 777) (RGBA 1 2 3 255))"
    by (simp add: loadImage_def example_file_system_def example_codecs_def filepath_Ext_def
        strings_ToLower_def ToLower_char_def)
  obtain result rng' where
    p: "Process example_externals (uniform_image (image_Rect 0 0 884 777) (RGBA 1 2 3 255))
          (example_Options\<lparr>Force := True\<rparr>) (constant_source (1 / 4)) = (Inr result, rng')"
    by (simp add: Process_def Let_def split_def)
  have c: "creatable example_file_system ''out.bmp''" "\<not> supported ''out.bmp''"
    by (simp_all add: example_file_system_def supported_def filepath_Ext_def strings_ToLower_def
        ToLower_char_def)
  have e: "strings_ToLower (filepath_Ext ''out.bmp'') = ''.bmp''"
    by (simp add: filepath_Ext_def strings_ToLower_def ToLower_char_def)
  have n: "files example_file_system ''out.bmp'' = None"
    by (simp add: example_file_system_def)
  show ?thesis
    by (simp add: ProcessFile_def l p saveImage_creates_before_checking [OF c] e n)
qed

text \<open>
  C9, amended.  If the extension of the input path is unsupported and the input file can
  be opened, \<^verbatim>\<open>ProcessFile\<close> returns an unsupported format error and the file system
  is as it was.  Whenever loading fails, or \<^verbatim>\<open>Process\<close> returns an error such as
  \<^verbatim>\<open>ErrAlreadyProcessed\<close>, that error is returned and the file system is as it was,
  whatever the output path.  If the input loads, \<^verbatim>\<open>Process\<close> returns an image, the
  output file can be created and the extension of the output path is unsupported,
  \<^verbatim>\<open>ProcessFile\<close> returns an unsupported format error.
\<close>

theorem ProcessFile_unsupported_format:
  "(\<not> supported inputPath \<and> files fs inputPath \<noteq> None \<longrightarrow>
      ProcessFile ext cd fs inputPath outputPath opts rng =
        (Some (UnsupportedImageFormat (strings_ToLower (filepath_Ext inputPath))), fs, rng) \<and>
      is_UnsupportedFormat (UnsupportedImageFormat (strings_ToLower (filepath_Ext inputPath)))) \<and>
   (\<forall>err. loadImage cd fs inputPath = Inl err \<longrightarrow>
      ProcessFile ext cd fs inputPath outputPath opts rng = (Some err, fs, rng)) \<and>
   (\<forall>img err rng'. loadImage cd fs inputPath = Inr img \<and>
        Process ext img opts rng = (Inl err, rng') \<longrightarrow>
      ProcessFile ext cd fs inputPath outputPath opts rng = (Some err, fs, rng')) \<and>
   (\<forall>img result rng'. loadImage cd fs inputPath = Inr img \<and>
        Process ext img opts rng = (Inr result, rng') \<and>
        creatable fs outputPath \<and> \<not> supported outputPath \<longrightarrow>
      fst (ProcessFile ext cd fs inputPath outputPath opts rng) =
        Some (UnsupportedOutputFormat (strings_ToLower (filepath_Ext outputPath))) \<and>
      is_UnsupportedFormat (UnsupportedOutputFormat (strings_ToLower (filepath_Ext outputPath))))"
proof -
  have a: "loadImage cd fs inputPath =
             Inl (UnsupportedImageFormat (strings_ToLower (filepath_Ext inputPath)))"
    if "\<not> supported inputPath" "files fs inputPath \<noteq> None"
    using that by (auto simp: loadImage_def supported_def Let_def)
  have b: "ProcessFile ext cd fs inputPath outputPath opts rng = (Some err, fs, rng)"
    if "loadImage cd fs inputPath = Inl err" for err
    using that by (simp add: ProcessFile_def)
  have c: "ProcessFile ext cd fs inputPath outputPath opts rng = (Some err, fs, rng')"
    if "loadImage cd fs inputPath = Inr img" "Process ext img opts rng = (Inl err, rng')"
    for img err rng'
    using that by (simp add: ProcessFile_def)
  have d: "fst (ProcessFile ext cd fs inputPath outputPath opts rng) =
             Some (UnsupportedOutputFormat (strings_ToLower (filepath_Ext outputPath)))"
    if "loadImage cd fs inputPath = Inr img" "Process ext img opts rng = (Inr result, rng')"
      "creatable fs outputPath" "\<not> supported outputPath"
    for img result rng'
    using that by (simp add: ProcessFile_def saveImage_creates_before_checking)
  show ?thesis
    using a b c d by (simp (no_asm_simp))
qed

theorem ProcessFile_unsupported_format_witness:
  "\<not> supported ''cover.bmp'' \<and> files example_file_system ''cover.bmp'' \<noteq> None \<and>
   ProcessFile example_externals example_codecs example_file_system ''cover.bmp'' ''out.png''
     example_Options (constant_source (1 / 4))
     = (Some (UnsupportedImageFormat ''.bmp''), example_file_system, constant_source (1 / 4)) \<and>
   loadImage example_codecs example_file_system ''missing.bmp'' = Inl OpenError \<and>
   ProcessFile example_externals example_codecs example_file_system ''missing.bmp'' ''out.bmp''
     example_Options (constant_source (1 / 4))
     = (Some OpenError, example_file_system, constant_source (1 / 4)) \<and>
   ProcessFile example_externals example_codecs example_file_system ''in.png'' ''out.bmp''
     example_Options (constant_source (1 / 4))
     = (Some ErrAlreadyProcessed, example_file_system, constant_source (1 / 4)) \<and>
   creatable example_file_system ''out.bmp'' \<and> \<not> supported ''out.bmp'' \<and>
   fst (ProcessFile example_externals example_codecs example_file_system ''in.png'' ''out.bmp''
     (example_Options\<lparr>Force := True\<rparr>) (constant_source (1 / 4)))
     = Some (UnsupportedOutputFormat ''.bmp'')"
proof -
  let ?rng = "constant_source (1 / 4)"
  let ?img = "uniform_image (image_Rect 0 0 884 777) (RGBA 1 2 3 255)"
  have h: "\<not> supported ''cover.bmp''" "files example_file_system ''cover.bmp'' \<noteq> None"
    by (simp_all add: supported_def filepath_Ext_def strings_ToLower_def ToLower_char_def
        example_file_system_def)
  have e: "strings_ToLower (filepath_Ext ''cover.bmp'') = ''.bmp''"
    "strings_ToLower (filepath_Ext ''out.bmp'') = ''.bmp''"
    by (simp_all add: filepath_Ext_def strings_ToLower_def ToLower_char_def)
  have miss: "loadImage example_codecs example_file_system ''missing.bmp'' = Inl OpenError"
    by (simp add: loadImage_def example_file_system_def)
  have l: "loadImage example_codecs example_file_system ''in.png'' = Inr ?img"
    by (simp add: loadImage_def example_file_system_def example_codecs_def filepath_Ext_def
        strings_ToLower_def ToLower_char_def)
  have p: "Process example_externals ?img example_Options ?rng = (Inl ErrAlreadyProcessed, ?rng)"
    by (simp add: Process_def example_Options_def example_externals_def uniform_image_def Let_def)
  obtain result rng' where
    q: "Process example_externals ?img (example_Options\<lparr>Force := True\<rparr>) ?rng = (Inr result, rng')"
    by (simp add: Process_def Let_def split_def)
  have c: "creatable example_file_system ''out.bmp''" "\<not> supported ''out.bmp''"
    by (simp_all add: example_file_system_def supported_def filepath_Ext_def strings_ToLower_def
        ToLower_char_def)
  note t1 = ProcessFile_unsupported_format [of "''cover.bmp''" example_file_system
      example_externals example_codecs "''out.png''" example_Options ?rng]
  note t2 = ProcessFile_unsupported_format [of "''missing.bmp''" example_file_system
      example_externals example_codecs "''out.bmp''" example_Options ?rng]
  note t3 = ProcessFile_unsupported_format [of "''in.png''" example_file_system
      example_externals example_codecs "''out.bmp''" example_Options ?rng]
  note t4 = ProcessFile_unsupported_format [of "''in.png''" example_file_system
      example_externals example_codecs "''out.bmp''" "example_Options\<lparr>Force := True\<rparr>" ?rng]
  have 1: "ProcessFile example_externals example_codecs example_file_system ''cover.bmp''
             ''out.png'' example_Options ?rng
           = (Some (UnsupportedImageFormat ''.bmp''), example_file_system, ?rng)"
    using t1 h unfolding e by blast
  have 2: "ProcessFile example_externals example_codecs example_file_system ''missing.bmp''
             ''out.bmp'' example_Options ?rng = (Some OpenError, example_file_system, ?rng)"
    using t2 miss by blast
  have 3: "ProcessFile example_externals example_codecs example_file_system ''in.png''
             ''out.bmp'' example_Options ?rng = (Some ErrAlreadyProcessed, example_file_system, ?rng)"
    using t3 l p by blast
  have 4: "fst (ProcessFile example_externals example_codecs example_file_system ''in.png''
             ''out.bmp'' (example_Options\<lparr>Force := True\<rparr>) ?rng)
           = Some (UnsupportedOutputFormat ''.bmp'')"
    using t4 l q c unfolding e by blast
  show ?thesis using h miss c 1 2 3 4 by blast
qed

end
